theory Spec2Isabelle
  imports Main
begin

section \<open>The inventory page: \<^verbatim>\<open>streamlit_app.py\<close>\<close>

text \<open>
  The program is one Python module. Its three database functions
  (\<^verbatim>\<open>initialize_data\<close>, \<^verbatim>\<open>load_data\<close>, \<^verbatim>\<open>update_data\<close>) are embedded below.
  Exceptions are values of a sum type (\<open>Inl\<close> is a raised exception), the
  connection is passed explicitly and returned updated, dictionaries are
  association lists in insertion order with distinct keys.
\<close>

subsection \<open>Cell values and exceptions\<close>

text \<open>
  The scalars a row holds. The model covers the storage classes NULL, INTEGER
  and TEXT; floating point numbers and byte strings are left out, and with
  them the frames that have a column of floating point numbers. A text is a
  list of 8-bit characters, read as the code points U+0000 to U+00FF.
\<close>

datatype val = VNone | VInt int | VStr string

datatype exn =
    IndexError
  | KeyError
  | TypeError
  | ValueError
  | AttributeError
  | NameError string
  | ProgrammingError
  | OverflowError
  | DatabaseError string

text \<open>
  \<open>DatabaseError\<close> stands for whatever the database engine itself raises
  (\<^verbatim>\<open>sqlite3.OperationalError\<close>, \<^verbatim>\<open>sqlite3.IntegrityError\<close>, ...); the other
  constructors are the exceptions the Python side of the code raises.
\<close>

subsection \<open>Dictionaries\<close>

type_synonym row = "(string \<times> val) list"

text \<open>\<^verbatim>\<open>d[k] = v\<close>: an existing key keeps its place, a new key goes last.\<close>

fun dict_setitem :: "row \<Rightarrow> string \<Rightarrow> val \<Rightarrow> row" where
  "dict_setitem [] k v = [(k, v)]"
| "dict_setitem ((k', v') # d) k v =
     (if k' = k then (k, v) # d else (k', v') # dict_setitem d k v)"

text \<open>\<^verbatim>\<open>d.update(delta)\<close>: every item of \<open>delta\<close> is stored into \<open>d\<close>, in order.\<close>

fun dict_update :: "row \<Rightarrow> row \<Rightarrow> row" where
  "dict_update d [] = d"
| "dict_update d ((k, v) # delta) = dict_update (dict_setitem d k v) delta"

subsection \<open>\<^verbatim>\<open>int(x)\<close>\<close>

text \<open>
  The blanks \<^verbatim>\<open>int\<close> strips from both ends of a text: the ASCII ones, and of
  the other code points up to U+00FF the two that are white space, U+0085 and
  U+00A0. (U+001C to U+001F are not stripped.)
\<close>

definition is_space :: "char \<Rightarrow> bool" where
  "is_space ch = (of_char ch \<in> {9, 10, 11, 12, 13, 32, 133, 160 :: nat})"

definition is_digit :: "char \<Rightarrow> bool" where
  "is_digit ch = (48 \<le> (of_char ch :: nat) \<and> (of_char ch :: nat) \<le> 57)"

definition digit_val :: "char \<Rightarrow> int" where
  "digit_val ch = int (of_char ch) - 48"

definition strip :: "string \<Rightarrow> string" where
  "strip s = rev (dropWhile is_space (rev (dropWhile is_space s)))"

text \<open>
  Decimal digits, where single underscores may stand between two digits.
  \<open>parse_digits acc s\<close> is called with \<open>s\<close> starting at a digit.
\<close>

fun parse_digits :: "int \<Rightarrow> string \<Rightarrow> int option" where
  "parse_digits acc [] = Some acc"
| "parse_digits acc [ch] =
     (if is_digit ch then Some (10 * acc + digit_val ch) else None)"
| "parse_digits acc (ch # ch' # s) =
     (if is_digit ch then parse_digits (10 * acc + digit_val ch) (ch' # s)
      else if ch = CHR ''_'' \<and> is_digit ch' then parse_digits acc (ch' # s)
      else None)"

definition parse_unsigned :: "string \<Rightarrow> int option" where
  "parse_unsigned s =
     (case s of [] \<Rightarrow> None
      | ch # _ \<Rightarrow> if is_digit ch then parse_digits 0 s else None)"

definition int_of_str :: "string \<Rightarrow> exn + int" where
  "int_of_str s =
     (let t = strip s;
          r = (case t of
                 [] \<Rightarrow> None
               | ch # u \<Rightarrow>
                   if ch = CHR ''-'' then map_option uminus (parse_unsigned u)
                   else if ch = CHR ''+'' then parse_unsigned u
                   else parse_unsigned t)
      in case r of None \<Rightarrow> Inl ValueError | Some n \<Rightarrow> Inr n)"

fun py_int :: "val \<Rightarrow> exn + int" where
  "py_int VNone = Inl TypeError"
| "py_int (VInt n) = Inr n"
| "py_int (VStr s) = int_of_str s"

subsection \<open>Data frames\<close>

text \<open>
  A \<^verbatim>\<open>pandas.DataFrame\<close>: row labels, column names, and one list of cells per
  row. In a frame of the library the labels are as many as the rows, every row
  has one cell per column, and the column names are distinct. The frame that
  \<^verbatim>\<open>pd.DataFrame(data, columns=...)\<close> builds has the labels \<open>0, 1, ..., n - 1\<close>.
\<close>

record dataframe =
  df_index :: "int list"
  df_columns :: "string list"
  df_data :: "val list list"

text \<open>The dictionary of the row stored at place \<open>j\<close> (\<^verbatim>\<open>to_dict()\<close> of the row).\<close>

definition to_dict :: "dataframe \<Rightarrow> nat \<Rightarrow> row" where
  "to_dict df j = zip (df_columns df) (df_data df ! j)"

text \<open>
  \<^verbatim>\<open>df.iloc[i].to_dict()\<close>: \<open>i\<close> is a position, a negative one counts from the
  end, any other is an \<^verbatim>\<open>IndexError\<close>. On \<^verbatim>\<open>None\<close> the attribute access fails.
\<close>

definition iloc_to_dict :: "dataframe option \<Rightarrow> int \<Rightarrow> exn + row" where
  "iloc_to_dict df i =
     (case df of
        None \<Rightarrow> Inl AttributeError
      | Some f \<Rightarrow>
          (let n = int (length (df_data f)) in
           if 0 \<le> i \<and> i < n then Inr (to_dict f (nat i))
           else if - n \<le> i \<and> i < 0 then Inr (to_dict f (nat (n + i)))
           else Inl IndexError))"

text \<open>
  \<^verbatim>\<open>df.loc[i, col]\<close>: \<open>i\<close> is a row label and \<open>col\<close> a column name, a missing
  one is a \<^verbatim>\<open>KeyError\<close>. A label that several rows carry selects all of them,
  and the result is a series instead of a scalar.
\<close>

datatype cell = Scalar val | Series "val list"

definition loc :: "dataframe option \<Rightarrow> int \<Rightarrow> string \<Rightarrow> exn + cell" where
  "loc df i col =
     (case df of
        None \<Rightarrow> Inl AttributeError
      | Some f \<Rightarrow>
          if col \<notin> set (df_columns f) then Inl KeyError
          else (case filter (\<lambda>(label, cells). label = i) (zip (df_index f) (df_data f)) of
                  [] \<Rightarrow> Inl KeyError
                | [(label, cells)] \<Rightarrow>
                    (case map_of (zip (df_columns f) cells) col of
                       None \<Rightarrow> Inl KeyError
                     | Some v \<Rightarrow> Inr (Scalar v))
                | rs \<Rightarrow>
                    Inr (Series (map (\<lambda>(label, cells).
                           case map_of (zip (df_columns f) cells) col of
                             None \<Rightarrow> VNone
                           | Some v \<Rightarrow> v) rs))))"

text \<open>\<^verbatim>\<open>int(df.loc[i, col])\<close>; a series of several values does not convert.\<close>

definition int_of_cell :: "cell \<Rightarrow> exn + int" where
  "int_of_cell c = (case c of Scalar v \<Rightarrow> py_int v | Series _ \<Rightarrow> Inl TypeError)"

subsection \<open>SQL statements\<close>

text \<open>
  The statements the module sends, by their kind, their table and the columns
  they name; a \<^verbatim>\<open>CREATE TABLE\<close> gives each column with the words that declare
  it. In every statement of \<^verbatim>\<open>update_data\<close> the placeholder of a column is the
  column's name (\<^verbatim>\<open>:id\<close>, \<^verbatim>\<open>:item_name\<close>, ...).
\<close>

datatype sql =
    CreateTable string "(string \<times> string list) list"
  | SelectAll string
  | Update string "string list" string
  | InsertInto string "string list"
  | DeleteFrom string string

fun sql_table :: "sql \<Rightarrow> string" where
  "sql_table (CreateTable t cols) = t"
| "sql_table (SelectAll t) = t"
| "sql_table (Update t cols w) = t"
| "sql_table (InsertInto t cols) = t"
| "sql_table (DeleteFrom t w) = t"

fun sql_columns :: "sql \<Rightarrow> string list" where
  "sql_columns (CreateTable t cols) = map fst cols"
| "sql_columns (SelectAll t) = []"
| "sql_columns (Update t cols w) = cols @ [w]"
| "sql_columns (InsertInto t cols) = cols"
| "sql_columns (DeleteFrom t w) = [w]"

text \<open>The named placeholders of a statement, in the order they occur.\<close>

fun sql_params :: "sql \<Rightarrow> string list" where
  "sql_params (Update t cols w) = cols @ [w]"
| "sql_params (InsertInto t cols) = cols"
| "sql_params (DeleteFrom t w) = [w]"
| "sql_params q = []"

text \<open>
  The statements before which the \<^verbatim>\<open>sqlite3\<close> module opens a transaction by
  itself (its default, ``legacy'' transaction control).
\<close>

fun is_dml :: "sql \<Rightarrow> bool" where
  "is_dml (Update t cols w) = True"
| "is_dml (InsertInto t cols) = True"
| "is_dml (DeleteFrom t w) = True"
| "is_dml q = False"

definition UPDATE_SQL :: sql where
  "UPDATE_SQL = Update ''inventory''
     [''item_name'', ''price'', ''units_sold'', ''units_left'', ''cost_price'',
      ''reorder_point'', ''description''] ''id''"

definition INSERT_SQL :: sql where
  "INSERT_SQL = InsertInto ''inventory''
     [''id'', ''item_name'', ''price'', ''units_sold'', ''units_left'', ''cost_price'',
      ''reorder_point'', ''description'']"

definition DELETE_SQL :: sql where
  "DELETE_SQL = DeleteFrom ''inventory'' ''id''"

subsection \<open>The connection\<close>

text \<open>
  The database engine is not part of the repository: it is a parameter. Its
  store has any type \<open>'s\<close>; \<open>db_prepare\<close> compiles a statement against a store
  (\<open>Some e\<close>: it raises \<open>e\<close>, as for a table that does not exist), \<open>db_step\<close>
  runs a statement with its bound values, \<open>db_query\<close> fetches all rows of a
  \<^verbatim>\<open>SELECT\<close>. A statement that runs gives the new store (\<open>Done\<close>). One that
  fails raises and either changes nothing (\<open>Failed\<close>) or has the engine roll
  the open transaction back as well (\<open>RolledBack\<close>, as a conflict on a table
  declared \<^verbatim>\<open>ON CONFLICT ROLLBACK\<close> does).
\<close>

datatype 's step = Done 's | Failed exn | RolledBack exn

record 's engine =
  db_prepare :: "'s \<Rightarrow> sql \<Rightarrow> exn option"
  db_step :: "'s \<Rightarrow> sql \<Rightarrow> val list \<Rightarrow> 's step"
  db_query :: "'s \<Rightarrow> sql \<Rightarrow> exn + val list list"

text \<open>
  The parameters of one execution: a plain \<^verbatim>\<open>dict\<close>, or a
  \<^verbatim>\<open>defaultdict(lambda: None, row)\<close>.
\<close>

datatype params = Dict row | DefaultDictNone row

text \<open>
  A connection: the committed store, the store as the open transaction sees it
  (\<open>None\<close>: no transaction is open), and two logs. \<open>calls\<close> holds the calls of
  \<^verbatim>\<open>execute\<close> and \<^verbatim>\<open>executemany\<close> made on its cursors so far, each with its
  statement and the sequence of parameters it was given; an element \<open>Inl e\<close>
  of such a sequence is a place where the generator that produces the sequence
  raises \<open>e\<close>. \<open>executed\<close> holds the statements that have run on the
  connection, each with its bound values.
\<close>

record 's conn =
  durable :: 's
  txn :: "'s option"
  calls :: "(sql \<times> (exn + params) list) list"
  executed :: "(sql \<times> val list) list"

definition view :: "'s conn \<Rightarrow> 's" where
  "view c = (case txn c of None \<Rightarrow> durable c | Some w \<Rightarrow> w)"

text \<open>The operations handed to the cursor, one per parameter set.\<close>

definition emitted :: "'s conn \<Rightarrow> (sql \<times> (exn + params)) list" where
  "emitted c = concat (map (\<lambda>(q, batch). map (Pair q) batch) (calls c))"

text \<open>
  Binding one named placeholder: a plain dictionary without the key is a
  \<^verbatim>\<open>ProgrammingError\<close>, a \<^verbatim>\<open>defaultdict\<close> answers \<^verbatim>\<open>None\<close>; keys that no
  placeholder names are never looked at. An integer outside 64 bits does not
  convert.
\<close>

definition getitem :: "params \<Rightarrow> string \<Rightarrow> exn + val" where
  "getitem p name =
     (case p of
        Dict d \<Rightarrow> (case map_of d name of None \<Rightarrow> Inl ProgrammingError | Some v \<Rightarrow> Inr v)
      | DefaultDictNone d \<Rightarrow> (case map_of d name of None \<Rightarrow> Inr VNone | Some v \<Rightarrow> Inr v))"

definition adapt :: "val \<Rightarrow> exn + val" where
  "adapt v =
     (case v of
        VInt n \<Rightarrow> if - (2 ^ 63) \<le> n \<and> n < 2 ^ 63 then Inr v else Inl OverflowError
      | _ \<Rightarrow> Inr v)"

fun bind_parameters :: "string list \<Rightarrow> params \<Rightarrow> exn + val list" where
  "bind_parameters [] p = Inr []"
| "bind_parameters (name # names) p =
     (case getitem p name of
        Inl e \<Rightarrow> Inl e
      | Inr v \<Rightarrow>
          (case adapt v of
             Inl e \<Rightarrow> Inl e
           | Inr v' \<Rightarrow>
               (case bind_parameters names p of
                  Inl e \<Rightarrow> Inl e
                | Inr vs \<Rightarrow> Inr (v' # vs))))"

text \<open>
  One statement runs in the open transaction, or directly on the committed
  store when none is open. A statement that fails raises; the open transaction
  stays as it was, unless the engine has rolled it back, and then none is open
  any more.
\<close>

definition run_stmt :: "'s engine \<Rightarrow> sql \<Rightarrow> val list \<Rightarrow> 's conn \<Rightarrow> (exn + unit) \<times> 's conn" where
  "run_stmt E q vs c =
     (case db_step E (view c) q vs of
        Failed e \<Rightarrow> (Inl e, c)
      | RolledBack e \<Rightarrow> (Inl e, c\<lparr>txn := None\<rparr>)
      | Done s \<Rightarrow>
          (Inr (), case txn c of
                     None \<Rightarrow> c\<lparr>durable := s, executed := executed c @ [(q, vs)]\<rparr>
                   | Some _ \<Rightarrow> c\<lparr>txn := Some s, executed := executed c @ [(q, vs)]\<rparr>))"

text \<open>
  The loop of \<^verbatim>\<open>executemany\<close>: take the next parameter set, bind it, run the
  statement. The first exception ends the loop; the module rolls nothing back.
\<close>

fun run_params :: "'s engine \<Rightarrow> sql \<Rightarrow> (exn + params) list \<Rightarrow> 's conn \<Rightarrow> (exn + unit) \<times> 's conn" where
  "run_params E q [] c = (Inr (), c)"
| "run_params E q (p # ps) c =
     (case p of
        Inl e \<Rightarrow> (Inl e, c)
      | Inr d \<Rightarrow>
          (case bind_parameters (sql_params q) d of
             Inl e \<Rightarrow> (Inl e, c)
           | Inr vs \<Rightarrow>
               (case run_stmt E q vs c of
                  (Inl e, c') \<Rightarrow> (Inl e, c')
                | (Inr _, c') \<Rightarrow> run_params E q ps c')))"

definition begin_transaction :: "'s conn \<Rightarrow> 's conn" where
  "begin_transaction c = (case txn c of None \<Rightarrow> c\<lparr>txn := Some (durable c)\<rparr> | Some _ \<Rightarrow> c)"

text \<open>
  \<^verbatim>\<open>cursor.executemany(q, batch)\<close>: the statement is compiled first; before a
  data-modifying statement a transaction is opened unless one is open already,
  also when the batch turns out to be empty; then the loop runs.
\<close>

definition executemany :: "'s engine \<Rightarrow> sql \<Rightarrow> (exn + params) list \<Rightarrow> 's conn \<Rightarrow> (exn + unit) \<times> 's conn" where
  "executemany E q batch c =
     (let c0 = c\<lparr>calls := calls c @ [(q, batch)]\<rparr> in
      case db_prepare E (view c0) q of
        Some e \<Rightarrow> (Inl e, c0)
      | None \<Rightarrow> run_params E q batch (if is_dml q then begin_transaction c0 else c0))"

text \<open>\<^verbatim>\<open>conn.commit()\<close>: nothing happens when no transaction is open.\<close>

definition commit :: "'s conn \<Rightarrow> 's conn" where
  "commit c = (case txn c of None \<Rightarrow> c | Some w \<Rightarrow> c\<lparr>durable := w, txn := None\<rparr>)"

text \<open>
  \<^verbatim>\<open>cursor.execute(q, p)\<close> is the same procedure on a single parameter set.
\<close>

definition execute :: "'s engine \<Rightarrow> sql \<Rightarrow> params \<Rightarrow> 's conn \<Rightarrow> (exn + unit) \<times> 's conn" where
  "execute E q p c = executemany E q [Inr p] c"

subsection \<open>What a run has done to the store\<close>

text \<open>
  Three notions to state what a call has done; none of them is part of the
  code. \<open>run_all E s stmts\<close> is the store that results when the bound
  statements \<open>stmts\<close> run one after the other from the store \<open>s\<close>, if all of
  them run. \<open>bound_of x stmt\<close> says that \<open>stmt\<close> is the operation \<open>x\<close>, as
  handed to the cursor, with its parameters bound. An engine
  \<open>never_rolls_back\<close> when none of its statements fails with a rollback of its
  own.
\<close>

fun run_all :: "'s engine \<Rightarrow> 's \<Rightarrow> (sql \<times> val list) list \<Rightarrow> 's option" where
  "run_all E s [] = Some s"
| "run_all E s ((q, vs) # stmts) =
     (case db_step E s q vs of
        Done s' \<Rightarrow> run_all E s' stmts
      | Failed e \<Rightarrow> None
      | RolledBack e \<Rightarrow> None)"

definition bound_of :: "sql \<times> (exn + params) \<Rightarrow> sql \<times> val list \<Rightarrow> bool" where
  "bound_of x stmt =
     (case snd x of
        Inl e \<Rightarrow> False
      | Inr d \<Rightarrow> fst stmt = fst x \<and> bind_parameters (sql_params (fst x)) d = Inr (snd stmt))"

definition never_rolls_back :: "'s engine \<Rightarrow> bool" where
  "never_rolls_back E = (\<forall>s q vs e. db_step E s q vs \<noteq> RolledBack e)"

text \<open>
  The bookkeeping of the proofs: from \<open>c\<close>, with the outcome \<open>r\<close>, to \<open>c'\<close>,
  having handed over \<open>ems\<close> and run \<open>new\<close>.
\<close>

definition ran :: "'s engine \<Rightarrow> 's conn \<Rightarrow> exn + unit \<Rightarrow> 's conn \<Rightarrow>
    (sql \<times> (exn + params)) list \<Rightarrow> (sql \<times> val list) list \<Rightarrow> bool" where
  "ran E c r c' ems new =
     (emitted c' = emitted c @ ems \<and>
      executed c' = executed c @ new \<and>
      durable c' = durable c \<and>
      list_all2 bound_of (take (length new) ems) new \<and>
      (txn c' \<noteq> None \<or> r = Inr () \<longrightarrow> run_all E (view c) new = Some (view c')) \<and>
      (r = Inr () \<longrightarrow> length new = length ems) \<and>
      ((r = Inr () \<or> never_rolls_back E) \<and> (new \<noteq> [] \<or> txn c \<noteq> None) \<longrightarrow> txn c' \<noteq> None))"

subsection \<open>\<^verbatim>\<open>initialize_data\<close>\<close>

definition CREATE_ENTITIES :: sql where
  "CREATE_ENTITIES = CreateTable ''entities''
     [(''entity_uuid'', [''TEXT'', ''PRIMARY'', ''KEY'']),
      (''entity_type'', [''TEXT'']),
      (''mitam_id'', [''TEXT'']),
      (''deliverying_vessel_name'', [''TEXT'']),
      (''entity_inventory'', [''TEXT''])]"

definition CREATE_TRANSACTIONS :: sql where
  "CREATE_TRANSACTIONS = CreateTable ''transactions''
     [(''transaction_id'', [''TEXT'', ''PRIMARY'', ''KEY'']),
      (''entity_uuid'', [''TEXT'', ''FOREIGN'', ''KEY'']),
      (''transaction_type'', [''TEXT'']),
      (''transaction_location'', [''TEXT'']),
      (''user_id'', [''TEXT'', ''FOREIGN'', ''KEY''])]"

definition CREATE_USERS :: sql where
  "CREATE_USERS = CreateTable ''users''
     [(''user_id'', [''TEXT'', ''PRIMARY'', ''KEY'']),
      (''last_name'', [''TEXT'']),
      (''first_name'', [''TEXT'']),
      (''email'', [''TEXT'']),
      (''phone_number'', [''TEXT'']),
      (''organization'', [''TEXT'']),
      (''sponsor_first'', [''TEXT'']),
      (''sponsor_last'', [''TEXT'']),
      (''sponsor_email'', [''TEXT'']),
      (''sponsor_phone'', [''TEXT'']),
      (''user_type'', [''TEXT'']),
      (''password_hash'', [''TEXT''])]"

text \<open>The statements \<^verbatim>\<open>initialize_data\<close> sends, in order.\<close>

definition initialize_data_statements :: "sql list" where
  "initialize_data_statements = [CREATE_ENTITIES, CREATE_TRANSACTIONS, CREATE_USERS]"

fun execute_all :: "'s engine \<Rightarrow> sql list \<Rightarrow> 's conn \<Rightarrow> (exn + unit) \<times> 's conn" where
  "execute_all E [] c = (Inr (), c)"
| "execute_all E (q # qs) c =
     (case execute E q (Dict []) c of
        (Inl e, c') \<Rightarrow> (Inl e, c')
      | (Inr _, c') \<Rightarrow> execute_all E qs c')"

definition initialize_data :: "'s engine \<Rightarrow> 's conn \<Rightarrow> (exn + unit) \<times> 's conn" where
  "initialize_data E conn =
     (case execute_all E initialize_data_statements conn of
        (Inl e, c) \<Rightarrow> (Inl e, c)
      | (Inr _, c) \<Rightarrow> (Inr (), commit c))"

subsection \<open>\<^verbatim>\<open>load_data\<close>\<close>

datatype pyobj = PyNone | PyFrame | PyTuple "pyobj list" | PyModuleObject string

text \<open>
  \<^verbatim>\<open>pd.DataFrame(data, columns=cols)\<close> on the list of tuples a cursor fetched
  (all of one length): it raises \<^verbatim>\<open>ValueError\<close> when the tuples do not have one
  value per column name. \<^verbatim>\<open>load_data\<close> never reads the frames it builds, so a
  frame built here is opaque: what the library makes of the fetched cells (a
  column of integers and NULLs, for one, becomes floating point numbers) is not
  modelled.
\<close>

definition pd_DataFrame :: "val list list \<Rightarrow> string list \<Rightarrow> exn + pyobj" where
  "pd_DataFrame rows cols =
     (if \<exists>r \<in> set rows. length r \<noteq> length cols then Inl ValueError else Inr PyFrame)"

text \<open>
  The names bound in the module when it calls \<^verbatim>\<open>load_data\<close> (line 214): its
  imports, its four functions, and the two variables assigned from
  \<^verbatim>\<open>connect_db()\<close>.
\<close>

definition module_globals :: "string list" where
  "module_globals =
     [''defaultdict'', ''Path'', ''sqlite3'', ''st'', ''alt'', ''pd'', ''connect_db'',
      ''initialize_data'', ''load_data'', ''update_data'', ''conn'',
      ''db_was_just_created'']"

text \<open>
  Reading a name that the function never assigns: it is looked up in the
  module (and then among the builtins, none of which is called
  \<^verbatim>\<open>df_transactions\<close> or \<^verbatim>\<open>df_users\<close>; they are not modelled).
\<close>

definition load_global :: "string \<Rightarrow> exn + pyobj" where
  "load_global name =
     (if name \<in> set module_globals then Inr (PyModuleObject name) else Inl (NameError name))"

text \<open>A tuple display evaluates its items from left to right.\<close>

fun build_tuple :: "(exn + pyobj) list \<Rightarrow> exn + pyobj list" where
  "build_tuple [] = Inr []"
| "build_tuple (x # xs) =
     (case x of
        Inl e \<Rightarrow> Inl e
      | Inr v \<Rightarrow> (case build_tuple xs of Inl e \<Rightarrow> Inl e | Inr vs \<Rightarrow> Inr (v # vs)))"

text \<open>
  \<^verbatim>\<open>load_data\<close>. A query that fails is caught by the bare \<^verbatim>\<open>except\<close> and the
  function returns \<^verbatim>\<open>None\<close>; the three frames are all assigned to the one
  local variable \<^verbatim>\<open>df_entities\<close>. The connection is not changed.
\<close>

definition load_data :: "'s engine \<Rightarrow> 's conn \<Rightarrow> exn + pyobj" where
  "load_data E conn =
     (case db_query E (view conn) (SelectAll ''entities'') of
        Inl _ \<Rightarrow> Inr PyNone
      | Inr data \<Rightarrow>
     (case pd_DataFrame data
             [''entity_uuid'', ''entity_type'', ''mitam_id'', ''deliverying_vessel_name'',
              ''entity_inventory''] of
        Inl e \<Rightarrow> Inl e
      | Inr df_entities \<Rightarrow>
     (case db_query E (view conn) (SelectAll ''transactions'') of
        Inl _ \<Rightarrow> Inr PyNone
      | Inr data \<Rightarrow>
     (case pd_DataFrame data
             [''transaction_id'', ''entity_uuid'', ''transaction_type'',
              ''transaction_location'', ''user_id''] of
        Inl e \<Rightarrow> Inl e
      | Inr df_entities \<Rightarrow>
     (case db_query E (view conn) (SelectAll ''users'') of
        Inl _ \<Rightarrow> Inr PyNone
      | Inr data \<Rightarrow>
     (case pd_DataFrame data
             [''user_id'', ''last_name'', ''first_name'', ''email'', ''phone_number'',
              ''organization'', ''sponsor_first'', ''sponsor_last'', ''sponsor_email'',
              ''sponsor_phone'', ''user_type'', ''password_hash''] of
        Inl e \<Rightarrow> Inl e
      | Inr df_entities \<Rightarrow>
     (case build_tuple [Inr df_entities, load_global ''df_transactions'',
                        load_global ''df_users''] of
        Inl e \<Rightarrow> Inl e
      | Inr vs \<Rightarrow> Inr (PyTuple vs))))))))"

subsection \<open>\<^verbatim>\<open>update_data\<close>\<close>

text \<open>
  The state of the data editor widget: the edited rows by position (a
  dictionary from position to the changed cells), the added rows, the deleted
  positions.
\<close>

record changes =
  edited_rows :: "(int \<times> row) list"
  added_rows :: "row list"
  deleted_rows :: "int list"

text \<open>\<^verbatim>\<open>st.session_state\<close>, of which the function reads \<^verbatim>\<open>inventory_table\<close>.\<close>

record session_state =
  inventory_table :: changes

text \<open>The \<^verbatim>\<open>for\<close> loop over the deltas (lines 148--151); \<open>rows\<close> is the list built so far.\<close>

fun edited_loop :: "dataframe option \<Rightarrow> (int \<times> row) list \<Rightarrow> row list \<Rightarrow> exn + row list" where
  "edited_loop df [] rows = Inr rows"
| "edited_loop df ((i, delta) # deltas) rows =
     (case iloc_to_dict df i of
        Inl e \<Rightarrow> Inl e
      | Inr row_dict \<Rightarrow> edited_loop df deltas (rows @ [dict_update row_dict delta]))"

text \<open>
  The first \<^verbatim>\<open>if\<close> (lines 144--167). The test reads \<open>changes\<close>, the deltas are
  read from the session state.
\<close>

definition update_edited :: "'s engine \<Rightarrow> session_state \<Rightarrow> dataframe option \<Rightarrow> changes \<Rightarrow> 's conn \<Rightarrow> (exn + unit) \<times> 's conn" where
  "update_edited E st df changes c =
     (if edited_rows changes \<noteq> [] then
        (let deltas = edited_rows (inventory_table st) in
         case edited_loop df deltas [] of
           Inl e \<Rightarrow> (Inl e, c)
         | Inr rows \<Rightarrow> executemany E UPDATE_SQL (map (\<lambda>r. Inr (Dict r)) rows) c)
      else (Inr (), c))"

text \<open>The second \<^verbatim>\<open>if\<close> (lines 169--178), with its generator of \<^verbatim>\<open>defaultdict\<close>s.\<close>

definition update_added :: "'s engine \<Rightarrow> changes \<Rightarrow> 's conn \<Rightarrow> (exn + unit) \<times> 's conn" where
  "update_added E changes c =
     (if added_rows changes \<noteq> [] then
        executemany E INSERT_SQL (map (\<lambda>row. Inr (DefaultDictNone row)) (added_rows changes)) c
      else (Inr (), c))"

text \<open>
  The items of the generator of the third \<^verbatim>\<open>if\<close>:
  \<^verbatim>\<open>{'id': int(df.loc[i, 'id'])}\<close> for each \<open>i\<close>.
\<close>

definition deleted_item :: "dataframe option \<Rightarrow> int \<Rightarrow> exn + params" where
  "deleted_item df i =
     (case loc df i ''id'' of
        Inl e \<Rightarrow> Inl e
      | Inr cl \<Rightarrow>
          (case int_of_cell cl of
             Inl e \<Rightarrow> Inl e
           | Inr k \<Rightarrow> Inr (Dict [(''id'', VInt k)])))"

text \<open>The third \<^verbatim>\<open>if\<close> (lines 180--184).\<close>

definition update_deleted :: "'s engine \<Rightarrow> dataframe option \<Rightarrow> changes \<Rightarrow> 's conn \<Rightarrow> (exn + unit) \<times> 's conn" where
  "update_deleted E df changes c =
     (if deleted_rows changes \<noteq> [] then
        executemany E DELETE_SQL (map (deleted_item df) (deleted_rows changes)) c
      else (Inr (), c))"

text \<open>
  \<^verbatim>\<open>update_data(conn, df, changes)\<close>, called with the session state \<open>st\<close> around
  it: the three blocks in order, then the commit. An exception leaves at once.
\<close>

definition update_data :: "'s engine \<Rightarrow> session_state \<Rightarrow> 's conn \<Rightarrow> dataframe option \<Rightarrow> changes \<Rightarrow> (exn + unit) \<times> 's conn" where
  "update_data E st conn df changes =
     (case update_edited E st df changes conn of
        (Inl e, c1) \<Rightarrow> (Inl e, c1)
      | (Inr _, c1) \<Rightarrow>
          (case update_added E changes c1 of
             (Inl e, c2) \<Rightarrow> (Inl e, c2)
           | (Inr _, c2) \<Rightarrow>
               (case update_deleted E df changes c2 of
                  (Inl e, c3) \<Rightarrow> (Inl e, c3)
                | (Inr _, c3) \<Rightarrow> (Inr (), commit c3))))"

subsection \<open>An engine for running examples\<close>

text \<open>
  An engine that accepts every statement and whose store is the list of the
  statements it ran, with their values. Its queries find no rows.
\<close>

definition recording_engine :: "(sql \<times> val list) list engine" where
  "recording_engine =
     \<lparr>db_prepare = (\<lambda>s q. None),
      db_step = (\<lambda>s q vs. Done (s @ [(q, vs)])),
      db_query = (\<lambda>s q. Inr [])\<rparr>"

definition fresh_conn :: "(sql \<times> val list) list conn" where
  "fresh_conn = \<lparr>durable = [], txn = None, calls = [], executed = []\<rparr>"

text \<open>The snapshot \<^verbatim>\<open>[{id: 1, units_left: 5, reorder_point: 2}]\<close> and an edit of its row.\<close>

definition S1 :: dataframe where
  "S1 = \<lparr>df_index = [0], df_columns = [''id'', ''units_left'', ''reorder_point''],
         df_data = [[VInt 1, VInt 5, VInt 2]]\<rparr>"

definition ch1 :: changes where
  "ch1 = \<lparr>edited_rows = [(0, [(''units_left'', VInt 1)])], added_rows = [], deleted_rows = []\<rparr>"

text \<open>The snapshot \<^verbatim>\<open>[{id: 1}, {id: 2}]\<close> and the deletion of its second row.\<close>

definition S2 :: dataframe where
  "S2 = \<lparr>df_index = [0, 1], df_columns = [''id''], df_data = [[VInt 1], [VInt 2]]\<rparr>"

definition ch2 :: changes where
  "ch2 = \<lparr>edited_rows = [], added_rows = [], deleted_rows = [1]\<rparr>"

text \<open>A snapshot of two rows with the eight columns of the statements, and a diff with one edit, one added row and one deletion.\<close>

definition S3 :: dataframe where
  "S3 = \<lparr>df_index = [0, 1],
         df_columns = [''id'', ''item_name'', ''price'', ''units_sold'', ''units_left'',
                       ''cost_price'', ''reorder_point'', ''description''],
         df_data = [[VInt 1, VStr ''Tea'', VInt 3, VInt 0, VInt 5, VInt 2, VInt 2, VStr ''green''],
                    [VInt 2, VStr ''Mug'', VInt 7, VInt 4, VInt 9, VInt 5, VInt 3, VStr ''blue'']]\<rparr>"


text \<open>The same edit of the same snapshot, with another delta in the session state.\<close>

definition st9 :: session_state where
  "st9 = \<lparr>inventory_table =
     \<lparr>edited_rows = [(0, [(''units_left'', VInt 9)])], added_rows = [], deleted_rows = []\<rparr>\<rparr>"

text \<open>
  Two engines that keep only the names of the tables created so far; both
  reject a statement, other than \<^verbatim>\<open>CREATE TABLE\<close>, on a table that was not
  created. \<open>catalog_engine\<close> accepts every \<^verbatim>\<open>CREATE TABLE\<close>, whatever the
  declarations of its columns: it is more lenient than SQLite, and with it
  \<^verbatim>\<open>initialize_data\<close> creates all of its three tables.
  \<open>sqlite_catalog_engine\<close> rejects, as SQLite does, a \<^verbatim>\<open>CREATE TABLE\<close> in which
  a column is declared with the word \<^verbatim>\<open>FOREIGN\<close> (a syntax error: a foreign key
  is a table constraint, or the column constraint \<^verbatim>\<open>REFERENCES\<close>).
\<close>

definition catalog_engine :: "string list engine" where
  "catalog_engine =
     \<lparr>db_prepare = (\<lambda>tables q. case q of
          CreateTable t cols \<Rightarrow> None
        | _ \<Rightarrow> if sql_table q \<in> set tables then None
               else Some (DatabaseError (''no such table: '' @ sql_table q))),
      db_step = (\<lambda>tables q vs. case q of
          CreateTable t cols \<Rightarrow> Done (if t \<in> set tables then tables else tables @ [t])
        | _ \<Rightarrow> Done tables),
      db_query = (\<lambda>tables q. if sql_table q \<in> set tables then Inr []
                  else Inl (DatabaseError (''no such table: '' @ sql_table q)))\<rparr>"

definition sqlite_catalog_engine :: "string list engine" where
  "sqlite_catalog_engine =
     catalog_engine\<lparr>db_prepare := (\<lambda>tables q. case q of
          CreateTable t cols \<Rightarrow>
            if list_ex (\<lambda>col. ''FOREIGN'' \<in> set (snd col)) cols
            then Some (DatabaseError ''near FOREIGN: syntax error'') else None
        | _ \<Rightarrow> db_prepare catalog_engine tables q)\<rparr>"

definition new_database :: "string list conn" where
  "new_database = \<lparr>durable = [], txn = None, calls = [], executed = []\<rparr>"

text \<open>An edit of the first row together with the deletion of a position the snapshot does not have.\<close>

definition ch_stale :: changes where
  "ch_stale = \<lparr>edited_rows = [(0, [(''units_left'', VInt 1)])], added_rows = [],
               deleted_rows = [5]\<rparr>"

text \<open>An edit at a position beyond the snapshot, and an edit at position \<open>-1\<close>.\<close>

definition ch_beyond :: changes where
  "ch_beyond = \<lparr>edited_rows = [(5, [(''units_left'', VInt 1)])], added_rows = [],
                deleted_rows = []\<rparr>"

definition ch_negative :: changes where
  "ch_negative = \<lparr>edited_rows = [(-1, [(''units_left'', VInt 1)])], added_rows = [],
                  deleted_rows = []\<rparr>"

text \<open>An added row with a column that the table does not have.\<close>

definition ch_unknown :: changes where
  "ch_unknown = \<lparr>edited_rows = [],
                 added_rows = [[(''id'', VInt 9), (''colour'', VStr ''red'')]],
                 deleted_rows = []\<rparr>"




text \<open>The deletion of both rows, the second first.\<close>

definition ch_two_deletes :: changes where
  "ch_two_deletes = \<lparr>edited_rows = [], added_rows = [], deleted_rows = [1, 0]\<rparr>"

text \<open>
  A snapshot whose keys are three texts: \<^verbatim>\<open>'7'\<close>, \<^verbatim>\<open>'07'\<close>, and \<^verbatim>\<open>'7'\<close> after a
  no-break space (U+00A0).
\<close>

definition S_text_keys :: dataframe where
  "S_text_keys = \<lparr>df_index = [0, 1, 2], df_columns = [''id''],
                  df_data = [[VStr ''7''], [VStr ''07''], [VStr [CHR 0xA0, CHR ''7'']]]\<rparr>"


section \<open>Auxiliary facts\<close>

lemma map_of_dict_setitem: "map_of (dict_setitem d k v) = (map_of d)(k \<mapsto> v)"
  by (induction d k v rule: dict_setitem.induct) auto

lemma dict_update_other:
  "k \<notin> fst ` set delta \<Longrightarrow> map_of (dict_update d delta) k = map_of d k"
  by (induction d delta rule: dict_update.induct) (auto simp: map_of_dict_setitem)

lemma dict_update_mentioned:
  "distinct (map fst delta) \<Longrightarrow> (k, v) \<in> set delta \<Longrightarrow> map_of (dict_update d delta) k = Some v"
proof (induction d delta rule: dict_update.induct)
  case (1 d)
  then show ?case by simp
next
  case (2 d k' v' delta)
  show ?case
  proof (cases "(k, v) = (k', v')")
    case True
    with 2 have "k \<notin> fst ` set delta" by auto
    then show ?thesis using True by (simp add: dict_update_other map_of_dict_setitem)
  next
    case False
    with 2 show ?thesis by auto
  qed
qed


lemma edited_loop_append:
  "edited_loop df deltas rows = Inr rs \<Longrightarrow>
     \<exists>rs'. rs = rows @ rs' \<and>
       list_all2 (\<lambda>(p, m) r. \<exists>d. iloc_to_dict df p = Inr d \<and> r = dict_update d m) deltas rs'"
proof (induction df deltas rows arbitrary: rs rule: edited_loop.induct)
  case (1 df rows)
  then show ?case by simp
next
  case (2 df i delta deltas rows)
  then obtain d where d: "iloc_to_dict df i = Inr d"
    and rest: "edited_loop df deltas (rows @ [dict_update d delta]) = Inr rs"
    by (auto split: sum.splits)
  from "2.IH"[OF d rest] obtain rs' where
    "rs = (rows @ [dict_update d delta]) @ rs'"
    "list_all2 (\<lambda>(p, m) r. \<exists>d. iloc_to_dict df p = Inr d \<and> r = dict_update d m) deltas rs'"
    by blast
  with d show ?case by auto
qed



lemma calls_run_stmt: "calls (snd (run_stmt E q vs c)) = calls c"
  by (simp add: run_stmt_def split: step.splits option.splits)

lemma calls_run_params: "calls (snd (run_params E q ps c)) = calls c"
proof (induction ps arbitrary: c)
  case Nil
  then show ?case by simp
next
  case (Cons p ps)
  show ?case
  proof (cases p)
    case (Inl e)
    then show ?thesis by simp
  next
    case (Inr d)
    show ?thesis
    proof (cases "bind_parameters (sql_params q) d")
      case (Inl e)
      with Inr show ?thesis by simp
    next
      case vs: (Inr vs)
      obtain r c' where rc: "run_stmt E q vs c = (r, c')" by (cases "run_stmt E q vs c")
      then have "calls c' = calls c" using calls_run_stmt[of E q vs c] by simp
      with Inr vs rc Cons.IH[of c'] show ?thesis by (cases r) auto
    qed
  qed
qed

lemma calls_begin_transaction: "calls (begin_transaction c) = calls c"
  by (simp add: begin_transaction_def split: option.splits)

lemma calls_executemany: "calls (snd (executemany E q batch c)) = calls c @ [(q, batch)]"
  by (simp add: executemany_def Let_def calls_run_params calls_begin_transaction split: option.splits)

lemma calls_commit: "calls (commit c) = calls c"
  by (simp add: commit_def split: option.splits)

lemma emitted_executemany:
  "emitted (snd (executemany E q batch c)) = emitted c @ map (Pair q) batch"
  by (simp add: emitted_def calls_executemany)

lemma emitted_commit: "emitted (commit c) = emitted c"
  by (simp add: emitted_def calls_commit)

lemma emitted_update_added:
  "emitted (snd (update_added E ch c)) =
     emitted c @ map (\<lambda>r. (INSERT_SQL, Inr (DefaultDictNone r))) (added_rows ch)"
  by (simp add: update_added_def emitted_executemany comp_def)

lemma emitted_update_deleted:
  "emitted (snd (update_deleted E df ch c)) =
     emitted c @ map (\<lambda>i. (DELETE_SQL, deleted_item df i)) (deleted_rows ch)"
  by (simp add: update_deleted_def emitted_executemany comp_def)

lemma emitted_update_edited:
  assumes "edited_rows ch \<noteq> [] \<Longrightarrow> edited_loop df (edited_rows (inventory_table st)) [] = Inr rows"
      and "edited_rows ch = [] \<Longrightarrow> rows = []"
  shows "emitted (snd (update_edited E st df ch c)) =
           emitted c @ map (\<lambda>r. (UPDATE_SQL, Inr (Dict r))) rows"
  using assms by (simp add: update_edited_def emitted_executemany comp_def)




lemma run_params_ok_items:
  "run_params E q ps c = (Inr u, c') \<Longrightarrow> \<forall>x \<in> set ps. \<exists>d. x = Inr d"
proof (induction ps arbitrary: c)
  case Nil
  then show ?case by simp
next
  case (Cons p ps)
  from Cons.prems obtain d vs c1 where
    "p = Inr d" "run_params E q ps c1 = (Inr u, c')"
    by (auto split: sum.splits prod.splits)
  with Cons.IH show ?case by auto
qed

lemma executemany_ok_items:
  "executemany E q batch c = (Inr u, c') \<Longrightarrow> \<forall>x \<in> set batch. \<exists>d. x = Inr d"
  by (auto simp: executemany_def Let_def split: option.splits dest: run_params_ok_items)

lemma update_deleted_ok_items:
  "update_deleted E df ch c = (Inr u, c') \<Longrightarrow>
     \<forall>p \<in> set (deleted_rows ch). \<exists>d. deleted_item df p = Inr d"
  by (cases "deleted_rows ch = []") (auto simp: update_deleted_def dest!: executemany_ok_items)

lemma filter_range_index:
  "filter (\<lambda>j. int j = p) [0 ..< n] = (if 0 \<le> p \<and> p < int n then [nat p] else [])"
proof (induction n)
  case 0
  then show ?case by simp
next
  case (Suc n)
  then show ?case by (auto simp: filter_empty_conv)
qed

lemma zip_range_index:
  "zip (map int [0 ..< length rows]) rows = map (\<lambda>j. (int j, rows ! j)) [0 ..< length rows]"
  by (rule nth_equalityI) simp_all

lemma filter_label_range_frame:
  "filter (\<lambda>(label, cells). label = p) (zip (map int [0 ..< length rows]) rows) =
     (if 0 \<le> p \<and> p < int (length rows) then [(p, rows ! nat p)] else [])"
proof -
  have "filter (\<lambda>(label, cells). label = p) (zip (map int [0 ..< length rows]) rows) =
      map (\<lambda>j. (int j, rows ! j)) (filter (\<lambda>j. int j = p) [0 ..< length rows])"
    by (simp add: zip_range_index filter_map comp_def)
  then show ?thesis
    by (simp add: filter_range_index)
qed

lemma loc_range_frame:
  assumes "df_index S = map int [0 ..< length (df_data S)]"
  shows "loc (Some S) p col =
           (if 0 \<le> p \<and> p < int (length (df_data S)) then
              (case map_of (zip (df_columns S) (df_data S ! nat p)) col of
                 None \<Rightarrow> Inl KeyError
               | Some v \<Rightarrow> Inr (Scalar v))
            else Inl KeyError)"
proof (cases "col \<in> set (df_columns S)")
  case True
  then show ?thesis
    unfolding loc_def
    by (simp add: assms filter_label_range_frame)
next
  case False
  then have none: "map_of (zip (df_columns S) (df_data S ! nat p)) col = None"
    by (auto simp: map_of_eq_None_iff dest: set_zip_leftD)
  from False show ?thesis
    unfolding loc_def none by simp
qed

lemma deleted_item_range_frame:
  assumes "df_index S = map int [0 ..< length (df_data S)]"
  shows "deleted_item (Some S) p =
           (if 0 \<le> p \<and> p < int (length (df_data S)) then
              (case map_of (zip (df_columns S) (df_data S ! nat p)) ''id'' of
                 None \<Rightarrow> Inl KeyError
               | Some v \<Rightarrow>
                   (case py_int v of
                      Inl e \<Rightarrow> Inl e
                    | Inr k \<Rightarrow> Inr (Dict [(''id'', VInt k)])))
            else Inl KeyError)"
  by (simp add: deleted_item_def loc_range_frame[OF assms] int_of_cell_def split: option.splits)

lemma update_data_ok:
  assumes "update_data E st c df ch = (Inr u, c')"
  obtains c1 c2 c3 where
    "update_edited E st df ch c = (Inr (), c1)"
    "update_added E ch c1 = (Inr (), c2)"
    "update_deleted E df ch c2 = (Inr (), c3)"
    "c' = commit c3"
  using assms by (auto simp: update_data_def split: sum.splits prod.splits)

lemma update_edited_ok_rows:
  assumes "update_edited E st df ch c = (Inr u, c')"
  shows "\<exists>rows. emitted c' = emitted c @ map (\<lambda>r. (UPDATE_SQL, Inr (Dict r))) rows \<and>
           (if edited_rows ch = [] then rows = []
            else list_all2 (\<lambda>(p, m) r. \<exists>d. iloc_to_dict df p = Inr d \<and> r = dict_update d m)
                   (edited_rows (inventory_table st)) rows)"
proof (cases "edited_rows ch = []")
  case True
  with assms show ?thesis by (simp add: update_edited_def)
next
  case False
  with assms obtain rows where
    loop: "edited_loop df (edited_rows (inventory_table st)) [] = Inr rows"
    by (auto simp: update_edited_def Let_def split: sum.splits)
  have "emitted (snd (update_edited E st df ch c)) =
          emitted c @ map (\<lambda>r. (UPDATE_SQL, Inr (Dict r))) rows"
    by (rule emitted_update_edited) (use loop False in simp_all)
  with assms edited_loop_append[OF loop] False show ?thesis by auto
qed


lemmas run_defs =
  update_data_def update_edited_def update_added_def update_deleted_def
  executemany_def recording_engine_def fresh_conn_def view_def
  UPDATE_SQL_def INSERT_SQL_def DELETE_SQL_def begin_transaction_def
  deleted_item_def loc_def to_dict_def iloc_to_dict_def int_of_cell_def getitem_def adapt_def
  run_stmt_def commit_def

lemma calls_update_edited:
  "\<exists>new. calls (snd (update_edited E st df ch c)) = calls c @ new \<and> set (map fst new) \<subseteq> {UPDATE_SQL}"
  by (auto simp: update_edited_def Let_def calls_executemany split: sum.splits)

lemma calls_update_added:
  "\<exists>new. calls (snd (update_added E ch c)) = calls c @ new \<and> set (map fst new) \<subseteq> {INSERT_SQL}"
  by (auto simp: update_added_def calls_executemany)

lemma calls_update_deleted:
  "\<exists>new. calls (snd (update_deleted E df ch c)) = calls c @ new \<and> set (map fst new) \<subseteq> {DELETE_SQL}"
  by (auto simp: update_deleted_def calls_executemany)

lemma calls_update_data:
  "\<exists>new. calls (snd (update_data E st c df ch)) = calls c @ new \<and>
     set (map fst new) \<subseteq> {UPDATE_SQL, INSERT_SQL, DELETE_SQL}"
proof -
  obtain r1 c1 where b1: "update_edited E st df ch c = (r1, c1)"
    by (cases "update_edited E st df ch c")
  obtain r2 c2 where b2: "update_added E ch c1 = (r2, c2)"
    by (cases "update_added E ch c1")
  obtain r3 c3 where b3: "update_deleted E df ch c2 = (r3, c3)"
    by (cases "update_deleted E df ch c2")
  from calls_update_edited[of E st df ch c] b1 obtain n1 where
    n1: "calls c1 = calls c @ n1" "set (map fst n1) \<subseteq> {UPDATE_SQL}" by auto
  from calls_update_added[of E ch c1] b2 obtain n2 where
    n2: "calls c2 = calls c1 @ n2" "set (map fst n2) \<subseteq> {INSERT_SQL}" by auto
  from calls_update_deleted[of E df ch c2] b3 obtain n3 where
    n3: "calls c3 = calls c2 @ n3" "set (map fst n3) \<subseteq> {DELETE_SQL}" by auto
  have "snd (update_data E st c df ch) \<in> {c1, c2, c3, commit c3}"
    using b1 b2 b3 by (auto simp: update_data_def split: sum.splits)
  moreover have "calls c1 = calls c @ n1 \<and> set (map fst n1) \<subseteq> {UPDATE_SQL, INSERT_SQL, DELETE_SQL}"
    using n1 by auto
  moreover have "calls c2 = calls c @ (n1 @ n2) \<and>
      set (map fst (n1 @ n2)) \<subseteq> {UPDATE_SQL, INSERT_SQL, DELETE_SQL}"
    using n1 n2 by auto
  moreover have "calls c3 = calls c @ (n1 @ n2 @ n3) \<and>
      set (map fst (n1 @ n2 @ n3)) \<subseteq> {UPDATE_SQL, INSERT_SQL, DELETE_SQL}"
    using n1 n2 n3 by auto
  ultimately show ?thesis
    by (auto simp: calls_commit simp del: set_map set_append map_append)
qed

lemma run_all_append:
  "run_all E s (a @ b) = (case run_all E s a of None \<Rightarrow> None | Some s' \<Rightarrow> run_all E s' b)"
  by (induction a arbitrary: s) (auto split: step.splits)

lemma emitted_run_stmt: "emitted (snd (run_stmt E q vs c)) = emitted c"
  by (simp add: emitted_def calls_run_stmt)

lemma emitted_run_params: "emitted (snd (run_params E q ps c)) = emitted c"
  by (simp add: emitted_def calls_run_params)

lemma view_begin_transaction: "view (begin_transaction c) = view c"
  by (simp add: begin_transaction_def view_def split: option.splits)

lemma txn_begin_transaction: "txn (begin_transaction c) \<noteq> None"
  by (simp add: begin_transaction_def split: option.splits)

lemma durable_begin_transaction: "durable (begin_transaction c) = durable c"
  by (simp add: begin_transaction_def split: option.splits)

lemma executed_begin_transaction: "executed (begin_transaction c) = executed c"
  by (simp add: begin_transaction_def split: option.splits)




text \<open>The loop of \<^verbatim>\<open>executemany\<close>, in an open transaction.\<close>

lemma run_params_ran:
  assumes "txn c \<noteq> None"
  shows "\<exists>new. executed (snd (run_params E q ps c)) = executed c @ new \<and>
           durable (snd (run_params E q ps c)) = durable c \<and>
           list_all2 bound_of (take (length new) (map (Pair q) ps)) new \<and>
           (txn (snd (run_params E q ps c)) \<noteq> None \<longrightarrow>
              run_all E (view c) new = Some (view (snd (run_params E q ps c)))) \<and>
           (fst (run_params E q ps c) = Inr () \<longrightarrow>
              length new = length ps \<and> txn (snd (run_params E q ps c)) \<noteq> None) \<and>
           (never_rolls_back E \<longrightarrow> txn (snd (run_params E q ps c)) \<noteq> None)"
  using assms
proof (induction ps arbitrary: c)
  case Nil
  then show ?case by simp
next
  case (Cons p ps)
  show ?case
  proof (cases p)
    case (Inl e)
    with Cons.prems show ?thesis by simp
  next
    case (Inr d)
    show ?thesis
    proof (cases "bind_parameters (sql_params q) d")
      case (Inl e)
      with Inr Cons.prems show ?thesis by simp
    next
      case vs: (Inr vs)
      from Cons.prems obtain w where w: "txn c = Some w" by auto
      show ?thesis
      proof (cases "db_step E (view c) q vs")
        case (Failed e)
        then have "run_params E q (p # ps) c = (Inl e, c)"
          using Inr vs by (simp add: run_stmt_def)
        with Cons.prems show ?thesis by simp
      next
        case (RolledBack e)
        then have "run_params E q (p # ps) c = (Inl e, c\<lparr>txn := None\<rparr>)"
          using Inr vs by (simp add: run_stmt_def)
        moreover have "\<not> never_rolls_back E"
          using RolledBack by (auto simp: never_rolls_back_def)
        ultimately show ?thesis by simp
      next
        case (Done s)
        let ?c1 = "c\<lparr>txn := Some s, executed := executed c @ [(q, vs)]\<rparr>"
        have step: "run_params E q (p # ps) c = run_params E q ps ?c1"
          using Inr vs Done w by (simp add: run_stmt_def)
        have c1: "txn ?c1 \<noteq> None" "view ?c1 = s" "durable ?c1 = durable c"
          "executed ?c1 = executed c @ [(q, vs)]"
          by (simp_all add: view_def)
        from Cons.IH[OF c1(1)] obtain new where new:
          "executed (snd (run_params E q ps ?c1)) = executed ?c1 @ new"
          "durable (snd (run_params E q ps ?c1)) = durable ?c1"
          "list_all2 bound_of (take (length new) (map (Pair q) ps)) new"
          "txn (snd (run_params E q ps ?c1)) \<noteq> None \<longrightarrow>
              run_all E (view ?c1) new = Some (view (snd (run_params E q ps ?c1)))"
          "fst (run_params E q ps ?c1) = Inr () \<longrightarrow>
              length new = length ps \<and> txn (snd (run_params E q ps ?c1)) \<noteq> None"
          "never_rolls_back E \<longrightarrow> txn (snd (run_params E q ps ?c1)) \<noteq> None"
          by blast
        have b: "bound_of (q, p) (q, vs)"
          using Inr vs by (simp add: bound_of_def)
        have "executed (snd (run_params E q (p # ps) c)) = executed c @ ((q, vs) # new)"
          unfolding step using new(1) by simp
        moreover have "durable (snd (run_params E q (p # ps) c)) = durable c"
          unfolding step using new(2) by simp
        moreover have "list_all2 bound_of
            (take (length ((q, vs) # new)) (map (Pair q) (p # ps))) ((q, vs) # new)"
          using new(3) b by simp
        moreover have "txn (snd (run_params E q (p # ps) c)) \<noteq> None \<longrightarrow>
            run_all E (view c) ((q, vs) # new) = Some (view (snd (run_params E q (p # ps) c)))"
          unfolding step using new(4) Done c1(2) by simp
        moreover have "fst (run_params E q (p # ps) c) = Inr () \<longrightarrow>
            length ((q, vs) # new) = length (p # ps) \<and>
            txn (snd (run_params E q (p # ps) c)) \<noteq> None"
          unfolding step using new(5) by simp
        moreover have "never_rolls_back E \<longrightarrow> txn (snd (run_params E q (p # ps) c)) \<noteq> None"
          unfolding step using new(6) by simp
        ultimately show ?thesis by blast
      qed
    qed
  qed
qed

lemma executemany_ran:
  assumes "is_dml q" and "executemany E q batch c = (r, c')"
  shows "\<exists>new. ran E c r c' (map (Pair q) batch) new"
proof -
  let ?c0 = "c\<lparr>calls := calls c @ [(q, batch)]\<rparr>"
  have em: "emitted c' = emitted c @ map (Pair q) batch"
    using emitted_executemany[of E q batch c] assms(2) by simp
  show ?thesis
  proof (cases "db_prepare E (view ?c0) q")
    case (Some e)
    then have "r = Inl e" "c' = ?c0"
      using assms(2) by (simp_all add: executemany_def Let_def)
    with em have "ran E c r c' (map (Pair q) batch) []"
      by (auto simp: ran_def view_def split: option.splits)
    then show ?thesis ..
  next
    case None
    let ?cb = "begin_transaction ?c0"
    have run: "run_params E q batch ?cb = (r, c')"
      using None assms by (simp add: executemany_def Let_def)
    have c0: "view ?c0 = view c"
      by (simp add: view_def split: option.splits)
    have cb: "txn ?cb \<noteq> None" "view ?cb = view c" "durable ?cb = durable c"
      "executed ?cb = executed c"
      using txn_begin_transaction[of ?c0] view_begin_transaction[of ?c0]
        durable_begin_transaction[of ?c0] executed_begin_transaction[of ?c0] c0
      by simp_all
    from run_params_ran[OF cb(1), of E q batch] run cb(2,3,4) obtain new where
      "executed c' = executed c @ new"
      "durable c' = durable c"
      "list_all2 bound_of (take (length new) (map (Pair q) batch)) new"
      "txn c' \<noteq> None \<longrightarrow> run_all E (view c) new = Some (view c')"
      "r = Inr () \<longrightarrow> length new = length batch \<and> txn c' \<noteq> None"
      "never_rolls_back E \<longrightarrow> txn c' \<noteq> None"
      by auto
    with em have "ran E c r c' (map (Pair q) batch) new"
      unfolding ran_def by auto
    then show ?thesis ..
  qed
qed

lemma ran_skip: "ran E c (Inr ()) c [] []"
  by (simp add: ran_def)

lemma ran_then:
  assumes "ran E c (Inr ()) c1 e1 n1" and "ran E c1 r c2 e2 n2"
  shows "ran E c r c2 (e1 @ e2) (n1 @ n2)"
proof -
  from assms(1) have a:
    "emitted c1 = emitted c @ e1" "executed c1 = executed c @ n1" "durable c1 = durable c"
    "list_all2 bound_of (take (length n1) e1) n1"
    "run_all E (view c) n1 = Some (view c1)" "length n1 = length e1"
    "n1 \<noteq> [] \<or> txn c \<noteq> None \<longrightarrow> txn c1 \<noteq> None"
    by (auto simp: ran_def)
  from assms(2) have b:
    "emitted c2 = emitted c1 @ e2" "executed c2 = executed c1 @ n2" "durable c2 = durable c1"
    "list_all2 bound_of (take (length n2) e2) n2"
    "txn c2 \<noteq> None \<or> r = Inr () \<longrightarrow> run_all E (view c1) n2 = Some (view c2)"
    "r = Inr () \<longrightarrow> length n2 = length e2"
    "(r = Inr () \<or> never_rolls_back E) \<and> (n2 \<noteq> [] \<or> txn c1 \<noteq> None) \<longrightarrow> txn c2 \<noteq> None"
    by (simp_all add: ran_def)
  have "list_all2 bound_of (take (length (n1 @ n2)) (e1 @ e2)) (n1 @ n2)"
    using a(4,6) b(4) by (simp add: list_all2_appendI)
  moreover have "txn c2 \<noteq> None \<or> r = Inr () \<longrightarrow> run_all E (view c) (n1 @ n2) = Some (view c2)"
    using a(5) b(5) by (simp add: run_all_append)
  moreover have "(r = Inr () \<or> never_rolls_back E) \<and> (n1 @ n2 \<noteq> [] \<or> txn c \<noteq> None) \<longrightarrow>
      txn c2 \<noteq> None"
    using a(7) b(7) by auto
  ultimately show ?thesis
    using a(1,2,3,6) b(1,2,3,6) by (simp add: ran_def)
qed

lemma update_edited_ran:
  assumes "update_edited E st df ch c = (r, c')"
  shows "\<exists>ems new. ran E c r c' ems new"
proof (cases "edited_rows ch = []")
  case True
  with assms have "r = Inr ()" "c' = c" by (simp_all add: update_edited_def)
  with ran_skip show ?thesis by blast
next
  case False
  show ?thesis
  proof (cases "edited_loop df (edited_rows (inventory_table st)) []")
    case (Inl e)
    with False assms have "r = Inl e" "c' = c" by (simp_all add: update_edited_def)
    then have "ran E c r c' [] []" by (simp add: ran_def)
    then show ?thesis by blast
  next
    case (Inr rows)
    with False assms have
      "executemany E UPDATE_SQL (map (\<lambda>r. Inr (Dict r)) rows) c = (r, c')"
      by (simp add: update_edited_def)
    moreover have "is_dml UPDATE_SQL" by (simp add: UPDATE_SQL_def)
    ultimately show ?thesis using executemany_ran by blast
  qed
qed

lemma update_added_ran:
  assumes "update_added E ch c = (r, c')"
  shows "\<exists>ems new. ran E c r c' ems new"
proof (cases "added_rows ch = []")
  case True
  with assms have "r = Inr ()" "c' = c" by (simp_all add: update_added_def)
  with ran_skip show ?thesis by blast
next
  case False
  with assms have
    "executemany E INSERT_SQL (map (\<lambda>row. Inr (DefaultDictNone row)) (added_rows ch)) c = (r, c')"
    by (simp add: update_added_def)
  moreover have "is_dml INSERT_SQL" by (simp add: INSERT_SQL_def)
  ultimately show ?thesis using executemany_ran by blast
qed

lemma update_deleted_ran:
  assumes "update_deleted E df ch c = (r, c')"
  shows "\<exists>ems new. ran E c r c' ems new"
proof (cases "deleted_rows ch = []")
  case True
  with assms have "r = Inr ()" "c' = c" by (simp_all add: update_deleted_def)
  with ran_skip show ?thesis by blast
next
  case False
  with assms have
    "executemany E DELETE_SQL (map (deleted_item df) (deleted_rows ch)) c = (r, c')"
    by (simp add: update_deleted_def)
  moreover have "is_dml DELETE_SQL" by (simp add: DELETE_SQL_def)
  ultimately show ?thesis using executemany_ran by blast
qed

text \<open>The three blocks of \<^verbatim>\<open>update_data\<close>, up to its commit.\<close>

lemma update_data_ran:
  assumes "update_data E st c df ch = (r, c')"
  shows "\<exists>c3 ems new. ran E c r c3 ems new \<and>
           (case r of Inl e \<Rightarrow> c' = c3 | Inr u \<Rightarrow> c' = commit c3)"
proof -
  obtain r1 c1 where b1: "update_edited E st df ch c = (r1, c1)"
    by (cases "update_edited E st df ch c")
  from update_edited_ran[OF b1] obtain e1 n1 where p1: "ran E c r1 c1 e1 n1" by blast
  show ?thesis
  proof (cases r1)
    case (Inl e)
    with b1 assms have "r = Inl e" "c' = c1" by (simp_all add: update_data_def)
    with p1 Inl show ?thesis by auto
  next
    case r1: (Inr u1)
    obtain r2 c2 where b2: "update_added E ch c1 = (r2, c2)"
      by (cases "update_added E ch c1")
    from update_added_ran[OF b2] obtain e2 n2 where p2: "ran E c1 r2 c2 e2 n2" by blast
    from p1 r1 have p1': "ran E c (Inr ()) c1 e1 n1" by simp
    show ?thesis
    proof (cases r2)
      case (Inl e)
      with b1 b2 r1 assms have "r = Inl e" "c' = c2" by (simp_all add: update_data_def)
      with ran_then[OF p1' p2] Inl show ?thesis by auto
    next
      case r2: (Inr u2)
      obtain r3 c3 where b3: "update_deleted E df ch c2 = (r3, c3)"
        by (cases "update_deleted E df ch c2")
      from update_deleted_ran[OF b3] obtain e3 n3 where p3: "ran E c2 r3 c3 e3 n3" by blast
      from p2 r2 have p2': "ran E c1 (Inr ()) c2 e2 n2" by simp
      have p12: "ran E c (Inr ()) c2 (e1 @ e2) (n1 @ n2)"
        by (rule ran_then[OF p1' p2'])
      show ?thesis
      proof (cases r3)
        case (Inl e)
        with b1 b2 b3 r1 r2 assms have "r = Inl e" "c' = c3" by (simp_all add: update_data_def)
        with ran_then[OF p12 p3] Inl show ?thesis by auto
      next
        case (Inr u3)
        with b1 b2 b3 r1 r2 assms have "r = Inr ()" "c' = commit c3"
          by (simp_all add: update_data_def)
        with ran_then[OF p12 p3] Inr show ?thesis by auto
      qed
    qed
  qed
qed

lemma update_data_raises:
  assumes "update_data E st c df ch = (Inl e, c')"
  shows "durable c' = durable c"
  using update_data_ran[OF assms] by (auto simp: ran_def)

lemma edited_loop_stale:
  assumes "(p, m) \<in> set deltas"
      and "p < - int (length (df_data S)) \<or> int (length (df_data S)) \<le> p"
  shows "edited_loop (Some S) deltas rows = Inl IndexError"
  using assms(1)
proof (induction deltas arbitrary: rows)
  case Nil
  then show ?case by simp
next
  case (Cons x deltas)
  obtain i d where x: "x = (i, d)" by (cases x)
  show ?case
  proof (cases "iloc_to_dict (Some S) i")
    case (Inl e)
    then have "e = IndexError"
      by (auto simp: iloc_to_dict_def Let_def split: if_splits)
    with Inl x show ?thesis by simp
  next
    case (Inr r)
    then have "(p, m) \<noteq> (i, d)"
      using assms(2) by (auto simp: iloc_to_dict_def Let_def split: if_splits)
    with Cons.prems x have "(p, m) \<in> set deltas" by auto
    with Cons.IH Inr x show ?thesis by simp
  qed
qed

lemma deleted_item_stale:
  "p \<notin> set (df_index S) \<Longrightarrow> deleted_item (Some S) p = Inl KeyError"
proof -
  assume "p \<notin> set (df_index S)"
  then have "filter (\<lambda>(label, cells). label = p) (zip (df_index S) (df_data S)) = []"
    by (auto simp: filter_empty_conv dest: set_zip_leftD)
  then show ?thesis
    by (simp add: deleted_item_def loc_def)
qed

lemma update_data_stale_delete:
  assumes "p \<in> set (deleted_rows ch)" and "deleted_item df p = Inl e0"
  shows "\<exists>e. fst (update_data E st c df ch) = Inl e"
proof (cases "fst (update_data E st c df ch)")
  case (Inl e)
  then show ?thesis by blast
next
  case (Inr u)
  then have "update_data E st c df ch = (Inr u, snd (update_data E st c df ch))"
    by (metis prod.collapse)
  then obtain c2 c3 where "update_deleted E df ch c2 = (Inr (), c3)"
    by (rule update_data_ok)
  from update_deleted_ok_items[OF this] assms show ?thesis by auto
qed

lemma bind_parameters_defaultdict_cong:
  "\<forall>k \<in> set names. map_of r k = map_of r' k \<Longrightarrow>
     bind_parameters names (DefaultDictNone r) = bind_parameters names (DefaultDictNone r')"
  by (induction names) (auto simp: getitem_def split: sum.splits option.splits)

lemma run_stmt_same_store:
  assumes "durable c = durable c2" and "txn c = txn c2"
  shows "fst (run_stmt E q vs c) = fst (run_stmt E q vs c2) \<and>
         durable (snd (run_stmt E q vs c)) = durable (snd (run_stmt E q vs c2)) \<and>
         txn (snd (run_stmt E q vs c)) = txn (snd (run_stmt E q vs c2))"
  using assms by (auto simp: run_stmt_def view_def split: step.splits option.splits)

lemma run_params_same_store:
  assumes "list_all2 (\<lambda>x y. x = y \<or> (\<exists>d d'. x = Inr d \<and> y = Inr d' \<and>
              bind_parameters (sql_params q) d = bind_parameters (sql_params q) d')) ps ps'"
      and "durable c = durable c2" and "txn c = txn c2"
  shows "fst (run_params E q ps c) = fst (run_params E q ps' c2) \<and>
         durable (snd (run_params E q ps c)) = durable (snd (run_params E q ps' c2)) \<and>
         txn (snd (run_params E q ps c)) = txn (snd (run_params E q ps' c2))"
  using assms
proof (induction ps ps' arbitrary: c c2 rule: list_all2_induct)
  case Nil
  then show ?case by simp
next
  case (Cons x xs y ys)
  show ?case
  proof (cases x)
    case (Inl e)
    with Cons.hyps(1) have "y = Inl e" by auto
    with Inl Cons.prems show ?thesis by simp
  next
    case (Inr d)
    with Cons.hyps(1) obtain d' where y: "y = Inr d'"
      and b: "bind_parameters (sql_params q) d = bind_parameters (sql_params q) d'"
      by auto
    show ?thesis
    proof (cases "bind_parameters (sql_params q) d")
      case (Inl e)
      with b have "bind_parameters (sql_params q) d' = Inl e" by simp
      with Inl Inr y Cons.prems show ?thesis by simp
    next
      case vs: (Inr vs)
      with b have vs': "bind_parameters (sql_params q) d' = Inr vs" by simp
      obtain r c1 where rc: "run_stmt E q vs c = (r, c1)" by (cases "run_stmt E q vs c")
      obtain r' c1' where rc': "run_stmt E q vs c2 = (r', c1')" by (cases "run_stmt E q vs c2")
      from run_stmt_same_store[OF Cons.prems, where E = E and q = q and vs = vs] rc rc'
      have eq: "r = r'" "durable c1 = durable c1'" "txn c1 = txn c1'" by simp_all
      show ?thesis
      proof (cases r)
        case (Inl e)
        with eq(1) have "r' = Inl e" by simp
        with Inl Inr y vs vs' rc rc' eq(2,3) show ?thesis by simp
      next
        case ok: (Inr u)
        with eq(1) have "r' = Inr u" by simp
        with ok Inr y vs vs' rc rc' Cons.IH[OF eq(2) eq(3)] show ?thesis by simp
      qed
    qed
  qed
qed

lemma executemany_same_store:
  assumes "list_all2 (\<lambda>x y. x = y \<or> (\<exists>d d'. x = Inr d \<and> y = Inr d' \<and>
              bind_parameters (sql_params q) d = bind_parameters (sql_params q) d')) ps ps'"
      and "durable c = durable c2" and "txn c = txn c2"
  shows "fst (executemany E q ps c) = fst (executemany E q ps' c2) \<and>
         durable (snd (executemany E q ps c)) = durable (snd (executemany E q ps' c2)) \<and>
         txn (snd (executemany E q ps c)) = txn (snd (executemany E q ps' c2))"
proof -
  let ?c0 = "c\<lparr>calls := calls c @ [(q, ps)]\<rparr>"
  let ?c0' = "c2\<lparr>calls := calls c2 @ [(q, ps')]\<rparr>"
  have v: "view ?c0 = view ?c0'"
    using assms(2,3) by (simp add: view_def split: option.splits)
  have s0: "durable ?c0 = durable ?c0'" "txn ?c0 = txn ?c0'"
    using assms(2,3) by simp_all
  have sb: "durable (begin_transaction ?c0) = durable (begin_transaction ?c0')"
    "txn (begin_transaction ?c0) = txn (begin_transaction ?c0')"
    using assms(2,3) by (simp_all add: begin_transaction_def split: option.splits)
  show ?thesis
  proof (cases "db_prepare E (view ?c0) q")
    case (Some e)
    with v s0 show ?thesis by (simp add: executemany_def Let_def)
  next
    case None
    show ?thesis
    proof (cases "is_dml q")
      case True
      with None v run_params_same_store[OF assms(1) sb, where E = E] show ?thesis
        by (simp add: executemany_def Let_def)
    next
      case False
      with None v run_params_same_store[OF assms(1) s0, where E = E] show ?thesis
        by (simp add: executemany_def Let_def)
    qed
  qed
qed

lemma list_all2_same_item:
  "list_all2 (\<lambda>x y. x = y \<or> (\<exists>d d'. x = Inr d \<and> y = Inr d' \<and>
              bind_parameters names d = bind_parameters names d')) ps ps"
  by (simp add: list_all2_same)

lemma update_edited_same_store:
  assumes "durable c = durable c2" and "txn c = txn c2"
      and "edited_rows ch' = edited_rows ch"
  shows "fst (update_edited E st df ch c) = fst (update_edited E st df ch' c2) \<and>
         durable (snd (update_edited E st df ch c)) = durable (snd (update_edited E st df ch' c2)) \<and>
         txn (snd (update_edited E st df ch c)) = txn (snd (update_edited E st df ch' c2))"
  using assms executemany_same_store[OF list_all2_same_item[where names = "sql_params UPDATE_SQL"] assms(1,2), where E = E]
  by (auto simp: update_edited_def Let_def split: sum.splits)

lemma update_deleted_same_store:
  assumes "durable c = durable c2" and "txn c = txn c2"
      and "deleted_rows ch' = deleted_rows ch"
  shows "fst (update_deleted E df ch c) = fst (update_deleted E df ch' c2) \<and>
         durable (snd (update_deleted E df ch c)) = durable (snd (update_deleted E df ch' c2)) \<and>
         txn (snd (update_deleted E df ch c)) = txn (snd (update_deleted E df ch' c2))"
  using assms executemany_same_store[OF list_all2_same_item[where names = "sql_params DELETE_SQL"] assms(1,2), where E = E]
  by (auto simp: update_deleted_def)

lemma update_added_same_store:
  assumes rows: "list_all2 (\<lambda>r r'. \<forall>k \<in> set (sql_columns INSERT_SQL). map_of r k = map_of r' k)
                   (added_rows ch) (added_rows ch')"
      and "durable c = durable c2" and "txn c = txn c2"
  shows "fst (update_added E ch c) = fst (update_added E ch' c2) \<and>
         durable (snd (update_added E ch c)) = durable (snd (update_added E ch' c2)) \<and>
         txn (snd (update_added E ch c)) = txn (snd (update_added E ch' c2))"
proof -
  have names: "sql_params INSERT_SQL = sql_columns INSERT_SQL"
    by (simp add: INSERT_SQL_def)
  from rows have "list_all2 (\<lambda>x y. x = y \<or> (\<exists>d d'. x = Inr d \<and> y = Inr d' \<and>
              bind_parameters (sql_params INSERT_SQL) d = bind_parameters (sql_params INSERT_SQL) d'))
          (map (\<lambda>row. Inr (DefaultDictNone row)) (added_rows ch))
          (map (\<lambda>row. Inr (DefaultDictNone row)) (added_rows ch'))"
    unfolding list_all2_map1 list_all2_map2 names
    by (rule list_all2_mono) (auto intro: bind_parameters_defaultdict_cong)
  from executemany_same_store[OF this assms(2,3), where E = E]
  have ex: "fst (executemany E INSERT_SQL (map (\<lambda>row. Inr (DefaultDictNone row)) (added_rows ch)) c) =
      fst (executemany E INSERT_SQL (map (\<lambda>row. Inr (DefaultDictNone row)) (added_rows ch')) c2) \<and>
     durable (snd (executemany E INSERT_SQL (map (\<lambda>row. Inr (DefaultDictNone row)) (added_rows ch)) c)) =
      durable (snd (executemany E INSERT_SQL (map (\<lambda>row. Inr (DefaultDictNone row)) (added_rows ch')) c2)) \<and>
     txn (snd (executemany E INSERT_SQL (map (\<lambda>row. Inr (DefaultDictNone row)) (added_rows ch)) c)) =
      txn (snd (executemany E INSERT_SQL (map (\<lambda>row. Inr (DefaultDictNone row)) (added_rows ch')) c2))" .
  from rows have "(added_rows ch = []) = (added_rows ch' = [])"
    by (auto simp: list_all2_Nil list_all2_Nil2)
  with ex assms(2,3) show ?thesis
    by (auto simp: update_added_def)
qed

subsection \<open>Runs of the examples\<close>






lemma run_ch_two_deletes:
  "fst (update_data recording_engine \<lparr>inventory_table = ch_two_deletes\<rparr> fresh_conn (Some S3)
     ch_two_deletes) = Inr ()"
  by (simp add: run_defs ch_two_deletes_def S3_def)


section \<open>The claims\<close>




text \<open>
  Claim C2, as the code has it. For a snapshot with the row labels
  \<open>0, ..., n - 1\<close>, as \<^verbatim>\<open>pd.DataFrame(data, columns=...)\<close> builds it, the item
  the generator gives for a deleted entry \<open>p\<close> is: \<^verbatim>\<open>KeyError\<close> when \<open>p\<close> is no
  position of the snapshot or the row has no \<^verbatim>\<open>id\<close>; else what \<^verbatim>\<open>int\<close> raises
  on the \<^verbatim>\<open>id\<close> cell of the row at position \<open>p\<close>; else the parameter
  \<^verbatim>\<open>{'id': k}\<close> with \<open>k\<close> the \<^verbatim>\<open>int\<close> of that cell. Whenever \<^verbatim>\<open>update_data\<close>
  returns, the Deletes handed to the cursor are the last operations, one per
  entry of \<open>deleted_rows\<close> and in its order; every entry \<open>p\<close> is a position of
  the snapshot, and its Delete is keyed by \<^verbatim>\<open>int\<close> of the \<^verbatim>\<open>id\<close> cell of the row
  at position \<open>p\<close>, which for an integer cell is the cell itself.
\<close>

theorem deleted_rows_emit_deletes:
  assumes range: "df_index S = map int [0 ..< length (df_data S)]"
  shows "(\<forall>p. deleted_item (Some S) p =
            (if 0 \<le> p \<and> p < int (length (df_data S)) then
               (case map_of (zip (df_columns S) (df_data S ! nat p)) ''id'' of
                  None \<Rightarrow> Inl KeyError
                | Some v \<Rightarrow>
                    (case py_int v of
                       Inl e \<Rightarrow> Inl e
                     | Inr k \<Rightarrow> Inr (Dict [(''id'', VInt k)])))
             else Inl KeyError)) \<and>
         (\<forall>c'. update_data E st c (Some S) ch = (Inr (), c') \<longrightarrow>
            (\<exists>pre ds. emitted c' = emitted c @ pre @ ds \<and>
               (\<forall>x \<in> set pre. fst x \<noteq> DELETE_SQL) \<and>
               list_all2 (\<lambda>p x. 0 \<le> p \<and> p < int (length (df_data S)) \<and>
                            (\<exists>v k. map_of (zip (df_columns S) (df_data S ! nat p)) ''id'' = Some v \<and>
                                   py_int v = Inr k \<and> (\<forall>n. v = VInt n \<longrightarrow> k = n) \<and>
                                   x = (DELETE_SQL, Inr (Dict [(''id'', VInt k)]))))
                 (deleted_rows ch) ds))"
proof (intro conjI allI impI)
  fix p
  show "deleted_item (Some S) p =
            (if 0 \<le> p \<and> p < int (length (df_data S)) then
               (case map_of (zip (df_columns S) (df_data S ! nat p)) ''id'' of
                  None \<Rightarrow> Inl KeyError
                | Some v \<Rightarrow>
                    (case py_int v of
                       Inl e \<Rightarrow> Inl e
                     | Inr k \<Rightarrow> Inr (Dict [(''id'', VInt k)])))
             else Inl KeyError)"
    by (rule deleted_item_range_frame[OF range])
next
  fix c'
  assume ret: "update_data E st c (Some S) ch = (Inr (), c')"
  from ret obtain c1 c2 c3 where
    b1: "update_edited E st (Some S) ch c = (Inr (), c1)" and
    b2: "update_added E ch c1 = (Inr (), c2)" and
    b3: "update_deleted E (Some S) ch c2 = (Inr (), c3)" and
    c': "c' = commit c3"
    by (rule update_data_ok)
  from update_edited_ok_rows[OF b1] obtain us where
    e1: "emitted c1 = emitted c @ map (\<lambda>r. (UPDATE_SQL, Inr (Dict r))) us"
    by blast
  let ?ins = "map (\<lambda>r. (INSERT_SQL, Inr (DefaultDictNone r))) (added_rows ch)"
  let ?ds = "map (\<lambda>i. (DELETE_SQL, deleted_item (Some S) i)) (deleted_rows ch)"
  let ?pre = "map (\<lambda>r. (UPDATE_SQL, Inr (Dict r))) us @ ?ins"
  have e2: "emitted c2 = emitted c1 @ ?ins"
    using emitted_update_added[of E ch c1] b2 by simp
  have e3: "emitted c3 = emitted c2 @ ?ds"
    using emitted_update_deleted[of E "Some S" ch c2] b3 by simp
  have em: "emitted c' = emitted c @ ?pre @ ?ds"
    by (simp add: c' emitted_commit e1 e2 e3)
  have pre: "\<forall>x \<in> set ?pre. fst x \<noteq> DELETE_SQL"
    by (auto simp: UPDATE_SQL_def INSERT_SQL_def DELETE_SQL_def)
  have "list_all2 (\<lambda>p x. 0 \<le> p \<and> p < int (length (df_data S)) \<and>
                            (\<exists>v k. map_of (zip (df_columns S) (df_data S ! nat p)) ''id'' = Some v \<and>
                                   py_int v = Inr k \<and> (\<forall>n. v = VInt n \<longrightarrow> k = n) \<and>
                                   x = (DELETE_SQL, Inr (Dict [(''id'', VInt k)]))))
             (deleted_rows ch) ?ds"
    unfolding list_all2_map2
  proof (rule list_all2_all_nthI)
    show "length (deleted_rows ch) = length (deleted_rows ch)" by simp
  next
    fix n assume "n < length (deleted_rows ch)"
    then have "deleted_rows ch ! n \<in> set (deleted_rows ch)" by simp
    with update_deleted_ok_items[OF b3] obtain d where
      d: "deleted_item (Some S) (deleted_rows ch ! n) = Inr d" by blast
    then show "0 \<le> deleted_rows ch ! n \<and> deleted_rows ch ! n < int (length (df_data S)) \<and>
          (\<exists>v k. map_of (zip (df_columns S) (df_data S ! nat (deleted_rows ch ! n))) ''id'' = Some v \<and>
                 py_int v = Inr k \<and> (\<forall>n. v = VInt n \<longrightarrow> k = n) \<and>
                 (DELETE_SQL, deleted_item (Some S) (deleted_rows ch ! n)) =
                 (DELETE_SQL, Inr (Dict [(''id'', VInt k)])))"
      unfolding deleted_item_range_frame[OF range]
      by (auto split: if_splits option.splits sum.splits)
  qed
  with em pre show "\<exists>pre ds. emitted c' = emitted c @ pre @ ds \<and>
               (\<forall>x \<in> set pre. fst x \<noteq> DELETE_SQL) \<and>
               list_all2 (\<lambda>p x. 0 \<le> p \<and> p < int (length (df_data S)) \<and>
                            (\<exists>v k. map_of (zip (df_columns S) (df_data S ! nat p)) ''id'' = Some v \<and>
                                   py_int v = Inr k \<and> (\<forall>n. v = VInt n \<longrightarrow> k = n) \<and>
                                   x = (DELETE_SQL, Inr (Dict [(''id'', VInt k)]))))
                 (deleted_rows ch) ds"
    by blast
qed

text \<open>
  Both rows of the snapshot of two rows are deleted, the second first: the
  Delete keyed 2, then the Delete keyed 1. Position 5 is not resolved.
\<close>

theorem deleted_rows_emit_deletes_witness:
  "(\<exists>pre. emitted (snd (update_data recording_engine \<lparr>inventory_table = ch_two_deletes\<rparr>
       fresh_conn (Some S3) ch_two_deletes)) =
       pre @ [(DELETE_SQL, Inr (Dict [(''id'', VInt 2)])), (DELETE_SQL, Inr (Dict [(''id'', VInt 1)]))] \<and>
     \<not> list_ex (\<lambda>x. fst x = DELETE_SQL) pre) \<and>
   deleted_item (Some S3) 5 = Inl KeyError \<and>
   deleted_item (Some S3) 1 = Inr (Dict [(''id'', VInt 2)])"
proof -
  let ?run = "update_data recording_engine \<lparr>inventory_table = ch_two_deletes\<rparr> fresh_conn
    (Some S3) ch_two_deletes"
  have range: "df_index S3 = map int [0 ..< length (df_data S3)]"
    by (simp add: S3_def)
  note inst = deleted_rows_emit_deletes[OF range, where E = recording_engine
      and st = "\<lparr>inventory_table = ch_two_deletes\<rparr>" and c = fresh_conn and ch = ch_two_deletes]
  have ret: "?run = (Inr (), snd ?run)"
    using run_ch_two_deletes by (metis prod.collapse)
  from inst ret obtain pre ds where
    em: "emitted (snd ?run) = emitted fresh_conn @ pre @ ds"
    and pre: "\<forall>x \<in> set pre. fst x \<noteq> DELETE_SQL"
    and ds: "list_all2 (\<lambda>p x. 0 \<le> p \<and> p < int (length (df_data S3)) \<and>
                (\<exists>v k. map_of (zip (df_columns S3) (df_data S3 ! nat p)) ''id'' = Some v \<and>
                       py_int v = Inr k \<and> (\<forall>n. v = VInt n \<longrightarrow> k = n) \<and>
                       x = (DELETE_SQL, Inr (Dict [(''id'', VInt k)]))))
             (deleted_rows ch_two_deletes) ds"
    by blast
  from ds have "ds = [(DELETE_SQL, Inr (Dict [(''id'', VInt 2)])),
      (DELETE_SQL, Inr (Dict [(''id'', VInt 1)]))]"
    by (auto simp: ch_two_deletes_def S3_def list_all2_Cons1)
  moreover have "emitted fresh_conn = []"
    by (simp add: emitted_def fresh_conn_def)
  ultimately have "\<exists>pre. emitted (snd ?run) =
       pre @ [(DELETE_SQL, Inr (Dict [(''id'', VInt 2)])), (DELETE_SQL, Inr (Dict [(''id'', VInt 1)]))] \<and>
     \<not> list_ex (\<lambda>x. fst x = DELETE_SQL) pre"
    using em pre by (auto simp: list_ex_iff)
  moreover from inst have "deleted_item (Some S3) 5 = Inl KeyError"
    by (simp add: S3_def)
  moreover from inst have "deleted_item (Some S3) 1 = Inr (Dict [(''id'', VInt 2)])"
    by (simp add: S3_def)
  ultimately show ?thesis by blast
qed

text \<open>
  Claim C2 fails as stated. The rows of the snapshot have three different
  keys, the texts \<^verbatim>\<open>'7'\<close>, \<^verbatim>\<open>'07'\<close>, and \<^verbatim>\<open>'7'\<close> after a no-break space. The
  deletion of position 1 hands over, and commits, the Delete keyed by the
  integer 7, which is not the key \<^verbatim>\<open>'07'\<close> of the row at position 1; the
  deletion of either other position gives the same Delete.
\<close>

theorem delete_of_text_key_converts:
  "map_of (zip (df_columns S_text_keys) (df_data S_text_keys ! 0)) ''id'' = Some (VStr ''7'') \<and>
   map_of (zip (df_columns S_text_keys) (df_data S_text_keys ! 1)) ''id'' = Some (VStr ''07'') \<and>
   map_of (zip (df_columns S_text_keys) (df_data S_text_keys ! 2)) ''id'' =
     Some (VStr [CHR 0xA0, CHR ''7'']) \<and>
   deleted_item (Some S_text_keys) 0 = Inr (Dict [(''id'', VInt 7)]) \<and>
   deleted_item (Some S_text_keys) 2 = Inr (Dict [(''id'', VInt 7)]) \<and>
   emitted (snd (update_data recording_engine \<lparr>inventory_table = ch2\<rparr> fresh_conn (Some S_text_keys)
     ch2)) = [(DELETE_SQL, Inr (Dict [(''id'', VInt 7)]))] \<and>
   durable (snd (update_data recording_engine \<lparr>inventory_table = ch2\<rparr> fresh_conn (Some S_text_keys)
     ch2)) = [(DELETE_SQL, [VInt 7])]"
  by (simp add: run_defs emitted_def ch2_def S_text_keys_def int_of_str_def strip_def is_space_def
      parse_unsigned_def is_digit_def digit_val_def)




text \<open>
  Claim C4, as the code has it. With the session state holding the edited rows
  passed in \<open>changes\<close>: an edited position outside \<open>-n \<le> p < n\<close>, for a snapshot
  of \<open>n\<close> rows, makes \<^verbatim>\<open>update_data\<close> raise \<^verbatim>\<open>IndexError\<close> before it touches the
  connection; a deleted entry that is no row label of the snapshot makes its
  generator item raise \<^verbatim>\<open>KeyError\<close>, so that \<^verbatim>\<open>update_data\<close> raises and commits
  nothing.
\<close>

theorem stale_positions_raise:
  assumes same: "edited_rows (inventory_table st) = edited_rows ch"
  shows "((p, m) \<in> set (edited_rows ch) \<and>
            (p < - int (length (df_data S)) \<or> int (length (df_data S)) \<le> p) \<longrightarrow>
            update_data E st c (Some S) ch = (Inl IndexError, c)) \<and>
         (q \<in> set (deleted_rows ch) \<and> q \<notin> set (df_index S) \<longrightarrow>
            deleted_item (Some S) q = Inl KeyError \<and>
            (\<exists>e. fst (update_data E st c (Some S) ch) = Inl e) \<and>
            durable (snd (update_data E st c (Some S) ch)) = durable c)"
proof -
  have "update_data E st c (Some S) ch = (Inl IndexError, c)"
    if "(p, m) \<in> set (edited_rows ch)"
      and "p < - int (length (df_data S)) \<or> int (length (df_data S)) \<le> p"
  proof -
    from that(1) have "edited_rows ch \<noteq> []" by auto
    moreover have "edited_loop (Some S) (edited_rows (inventory_table st)) [] = Inl IndexError"
      using edited_loop_stale[OF that] same by simp
    ultimately show ?thesis
      by (simp add: update_data_def update_edited_def)
  qed
  moreover have "deleted_item (Some S) q = Inl KeyError \<and>
            (\<exists>e. fst (update_data E st c (Some S) ch) = Inl e) \<and>
            durable (snd (update_data E st c (Some S) ch)) = durable c"
    if "q \<in> set (deleted_rows ch)" and "q \<notin> set (df_index S)"
  proof -
    have item: "deleted_item (Some S) q = Inl KeyError"
      using that(2) by (rule deleted_item_stale)
    from update_data_stale_delete[OF that(1) item, of E st c]
    obtain e where e: "fst (update_data E st c (Some S) ch) = Inl e" by blast
    then have "update_data E st c (Some S) ch = (Inl e, snd (update_data E st c (Some S) ch))"
      by (metis prod.collapse)
    from update_data_raises[OF this] item e show ?thesis by blast
  qed
  ultimately show ?thesis by blast
qed

text \<open>An edited position 5, and a deleted position 5, on the snapshot of two rows.\<close>

theorem stale_positions_raise_witness:
  "update_data recording_engine \<lparr>inventory_table = ch_beyond\<rparr> fresh_conn (Some S3) ch_beyond =
     (Inl IndexError, fresh_conn) \<and>
   deleted_item (Some S3) 5 = Inl KeyError \<and>
   durable (snd (update_data recording_engine \<lparr>inventory_table = ch_stale\<rparr> fresh_conn (Some S3) ch_stale)) =
     durable fresh_conn"
proof -
  have s1: "edited_rows (inventory_table \<lparr>inventory_table = ch_beyond\<rparr>) = edited_rows ch_beyond"
    and s2: "edited_rows (inventory_table \<lparr>inventory_table = ch_stale\<rparr>) = edited_rows ch_stale"
    by simp_all
  have "(5, [(''units_left'', VInt 1)]) \<in> set (edited_rows ch_beyond) \<and>
        ((5::int) < - int (length (df_data S3)) \<or> int (length (df_data S3)) \<le> (5::int))"
    by (simp add: ch_beyond_def S3_def)
  with stale_positions_raise[OF s1, where p = 5 and m = "[(''units_left'', VInt 1)]" and S = S3
      and q = 0 and E = recording_engine and c = fresh_conn]
  have "update_data recording_engine \<lparr>inventory_table = ch_beyond\<rparr> fresh_conn (Some S3) ch_beyond =
     (Inl IndexError, fresh_conn)"
    by blast
  moreover have "(5::int) \<in> set (deleted_rows ch_stale) \<and> (5::int) \<notin> set (df_index S3)"
    by (simp add: ch_stale_def S3_def)
  with stale_positions_raise[OF s2, where p = 0 and m = "[]" and S = S3
      and q = 5 and E = recording_engine and c = fresh_conn]
  have "deleted_item (Some S3) 5 = Inl KeyError \<and>
     durable (snd (update_data recording_engine \<lparr>inventory_table = ch_stale\<rparr> fresh_conn (Some S3) ch_stale)) =
     durable fresh_conn"
    by blast
  ultimately show ?thesis by blast
qed

text \<open>
  Claim C4 fails as stated. Position 5 is no position of the two-row snapshot
  and the failure is Python's \<^verbatim>\<open>IndexError\<close>; position \<open>-1\<close> is no position of
  it either, yet \<^verbatim>\<open>update_data\<close> returns and has updated the last row, the one
  with \<^verbatim>\<open>id\<close> 2.
\<close>

theorem negative_position_is_resolved:
  "fst (update_data recording_engine \<lparr>inventory_table = ch_beyond\<rparr> fresh_conn (Some S3) ch_beyond) =
     Inl IndexError \<and>
   fst (update_data recording_engine \<lparr>inventory_table = ch_negative\<rparr> fresh_conn (Some S3) ch_negative) =
     Inr () \<and>
   durable (snd (update_data recording_engine \<lparr>inventory_table = ch_negative\<rparr> fresh_conn (Some S3) ch_negative)) =
     [(UPDATE_SQL, [VStr ''Mug'', VInt 7, VInt 4, VInt 1, VInt 5, VInt 3, VStr ''blue'', VInt 2])]"
  by (simp add: run_defs ch_beyond_def ch_negative_def S3_def)

text \<open>
  Claim C5, as the code has it. Of an added row the Insert reads the eight
  columns it names and nothing else: when the added rows are replaced by rows
  that agree with them on these eight columns (for instance by the same rows
  without their unknown columns), \<^verbatim>\<open>update_data\<close> ends the same way and leaves
  the same committed store and the same transaction.
\<close>

theorem unknown_columns_are_ignored:
  assumes "list_all2 (\<lambda>r r'. \<forall>k \<in> set (sql_columns INSERT_SQL). map_of r k = map_of r' k)
             (added_rows ch) rows'"
  shows "fst (update_data E st c df (ch\<lparr>added_rows := rows'\<rparr>)) = fst (update_data E st c df ch) \<and>
         durable (snd (update_data E st c df (ch\<lparr>added_rows := rows'\<rparr>))) =
           durable (snd (update_data E st c df ch)) \<and>
         txn (snd (update_data E st c df (ch\<lparr>added_rows := rows'\<rparr>))) =
           txn (snd (update_data E st c df ch))"
proof -
  let ?ch' = "ch\<lparr>added_rows := rows'\<rparr>"
  obtain r1 c1 where b1: "update_edited E st df ch c = (r1, c1)"
    by (cases "update_edited E st df ch c")
  obtain r1' c1' where b1': "update_edited E st df ?ch' c = (r1', c1')"
    by (cases "update_edited E st df ?ch' c")
  obtain r2 c2 where b2: "update_added E ch c1 = (r2, c2)"
    by (cases "update_added E ch c1")
  obtain r2' c2' where b2': "update_added E ?ch' c1' = (r2', c2')"
    by (cases "update_added E ?ch' c1'")
  obtain r3 c3 where b3: "update_deleted E df ch c2 = (r3, c3)"
    by (cases "update_deleted E df ch c2")
  obtain r3' c3' where b3': "update_deleted E df ?ch' c2' = (r3', c3')"
    by (cases "update_deleted E df ?ch' c2'")
  have e1: "r1 = r1'" "durable c1 = durable c1'" "txn c1 = txn c1'"
    using update_edited_same_store[of c c ?ch' ch E st df] b1 b1' by simp_all
  have rows: "list_all2 (\<lambda>r r'. \<forall>k \<in> set (sql_columns INSERT_SQL). map_of r k = map_of r' k)
                (added_rows ch) (added_rows ?ch')"
    using assms by simp
  have e2: "r2 = r2'" "durable c2 = durable c2'" "txn c2 = txn c2'"
    using update_added_same_store[OF rows e1(2,3), where E = E] b2 b2' by simp_all
  have e3: "r3 = r3'" "durable c3 = durable c3'" "txn c3 = txn c3'"
    using update_deleted_same_store[OF e2(2,3), where ch' = ?ch' and ch = ch and E = E and df = df]
      b3 b3' by simp_all
  have cm: "durable (commit c3) = durable (commit c3')" "txn (commit c3) = txn (commit c3')"
    using e3(2,3) by (simp_all add: commit_def split: option.splits)
  have u: "update_data E st c df ch =
      (case r1 of Inl e \<Rightarrow> (Inl e, c1) | Inr _ \<Rightarrow>
        (case r2 of Inl e \<Rightarrow> (Inl e, c2) | Inr _ \<Rightarrow>
          (case r3 of Inl e \<Rightarrow> (Inl e, c3) | Inr _ \<Rightarrow> (Inr (), commit c3))))"
    using b1 b2 b3 by (simp add: update_data_def split: sum.splits)
  have u': "update_data E st c df ?ch' =
      (case r1' of Inl e \<Rightarrow> (Inl e, c1') | Inr _ \<Rightarrow>
        (case r2' of Inl e \<Rightarrow> (Inl e, c2') | Inr _ \<Rightarrow>
          (case r3' of Inl e \<Rightarrow> (Inl e, c3') | Inr _ \<Rightarrow> (Inr (), commit c3'))))"
    using b1' b2' b3' by (simp add: update_data_def split: sum.splits)
  show ?thesis
    unfolding u u' using e1 e2 e3 cm by (auto split: sum.splits)
qed

text \<open>The added row \<^verbatim>\<open>{id: 9, colour: 'red'}\<close> and the same row without \<^verbatim>\<open>colour\<close>.\<close>

theorem unknown_columns_are_ignored_witness:
  "fst (update_data recording_engine \<lparr>inventory_table = ch_unknown\<rparr> fresh_conn (Some S3)
          (ch_unknown\<lparr>added_rows := [[(''id'', VInt 9)]]\<rparr>)) =
     fst (update_data recording_engine \<lparr>inventory_table = ch_unknown\<rparr> fresh_conn (Some S3) ch_unknown) \<and>
   durable (snd (update_data recording_engine \<lparr>inventory_table = ch_unknown\<rparr> fresh_conn (Some S3)
          (ch_unknown\<lparr>added_rows := [[(''id'', VInt 9)]]\<rparr>))) =
     durable (snd (update_data recording_engine \<lparr>inventory_table = ch_unknown\<rparr> fresh_conn (Some S3) ch_unknown))"
proof -
  have "list_all2 (\<lambda>r r'. \<forall>k \<in> set (sql_columns INSERT_SQL). map_of r k = map_of r' k)
             (added_rows ch_unknown) [[(''id'', VInt 9)]]"
    by (simp add: ch_unknown_def INSERT_SQL_def)
  from unknown_columns_are_ignored[OF this] show ?thesis
    by blast
qed

text \<open>
  Claim C5 fails as stated. The added row has the column \<^verbatim>\<open>colour\<close>, which is
  none of the table's: \<^verbatim>\<open>update_data\<close> returns, and the row is inserted and
  committed without it.
\<close>

theorem unknown_column_is_inserted:
  "fst (update_data recording_engine \<lparr>inventory_table = ch_unknown\<rparr> fresh_conn (Some S3) ch_unknown) =
     Inr () \<and>
   durable (snd (update_data recording_engine \<lparr>inventory_table = ch_unknown\<rparr> fresh_conn (Some S3) ch_unknown)) =
     [(INSERT_SQL, [VInt 9, VNone, VNone, VNone, VNone, VNone, VNone, VNone])] \<and>
   ''colour'' \<notin> set (sql_columns INSERT_SQL)"
  by (simp add: run_defs ch_unknown_def)



text \<open>
  Claim C7. For every snapshot (also \<^verbatim>\<open>None\<close>), session state and
  connection, \<^verbatim>\<open>update_data\<close> on the empty diff returns, calls \<^verbatim>\<open>executemany\<close>
  not once, so hands no operation to the cursor, and leaves no transaction
  open: only its final \<^verbatim>\<open>commit\<close> runs, after which the committed store is
  what the connection saw before the call.
\<close>

theorem empty_diff_no_transaction:
  "fst (update_data E st c df \<lparr>edited_rows = [], added_rows = [], deleted_rows = []\<rparr>) = Inr () \<and>
   calls (snd (update_data E st c df \<lparr>edited_rows = [], added_rows = [], deleted_rows = []\<rparr>)) = calls c \<and>
   emitted (snd (update_data E st c df \<lparr>edited_rows = [], added_rows = [], deleted_rows = []\<rparr>)) = emitted c \<and>
   txn (snd (update_data E st c df \<lparr>edited_rows = [], added_rows = [], deleted_rows = []\<rparr>)) = None \<and>
   durable (snd (update_data E st c df \<lparr>edited_rows = [], added_rows = [], deleted_rows = []\<rparr>)) = view c"
  by (simp add: update_data_def update_edited_def update_added_def update_deleted_def
      commit_def view_def emitted_def split: option.splits)

text \<open>
  Claim C8 fails on the code. Two calls with the same snapshot and the same
  diff, the first under a session state that holds the diff, the second under a
  session state whose edited rows differ: the Update of the second carries the
  session state's value 9 where the diff passed to the function says 1.
\<close>

theorem session_state_decides_updates:
  "emitted (snd (update_data recording_engine \<lparr>inventory_table = ch1\<rparr> fresh_conn (Some S3) ch1)) =
     [(UPDATE_SQL, Inr (Dict [(''id'', VInt 1), (''item_name'', VStr ''Tea''), (''price'', VInt 3),
         (''units_sold'', VInt 0), (''units_left'', VInt 1), (''cost_price'', VInt 2),
         (''reorder_point'', VInt 2), (''description'', VStr ''green'')]))] \<and>
   emitted (snd (update_data recording_engine st9 fresh_conn (Some S3) ch1)) =
     [(UPDATE_SQL, Inr (Dict [(''id'', VInt 1), (''item_name'', VStr ''Tea''), (''price'', VInt 3),
         (''units_sold'', VInt 0), (''units_left'', VInt 9), (''cost_price'', VInt 2),
         (''reorder_point'', VInt 2), (''description'', VStr ''green'')]))] \<and>
   durable (snd (update_data recording_engine \<lparr>inventory_table = ch1\<rparr> fresh_conn (Some S3) ch1)) =
     [(UPDATE_SQL, [VStr ''Tea'', VInt 3, VInt 0, VInt 1, VInt 2, VInt 2, VStr ''green'', VInt 1])] \<and>
   durable (snd (update_data recording_engine st9 fresh_conn (Some S3) ch1)) =
     [(UPDATE_SQL, [VStr ''Tea'', VInt 3, VInt 0, VInt 9, VInt 2, VInt 2, VStr ''green'', VInt 1])]"
  by (simp add: run_defs emitted_def ch1_def st9_def S3_def)

text \<open>
  Claim C9 fails on the code. Every statement \<^verbatim>\<open>update_data\<close> sends is one of
  its three statements, all on the table \<^verbatim>\<open>inventory\<close>; the tables
  \<^verbatim>\<open>initialize_data\<close> creates are \<^verbatim>\<open>entities\<close>, \<^verbatim>\<open>transactions\<close> and \<^verbatim>\<open>users\<close>, and
  none of their columns is a column \<^verbatim>\<open>update_data\<close> writes. On a database that
  holds what \<^verbatim>\<open>initialize_data\<close> created, the deletion of a row fails with ``no
  such table''. This is so on an engine that accepts all three \<^verbatim>\<open>CREATE TABLE\<close>
  statements, and on one that, as SQLite does, rejects the second for its
  \<^verbatim>\<open>FOREIGN KEY\<close> column declaration: there \<^verbatim>\<open>initialize_data\<close> raises and
  leaves only the table \<^verbatim>\<open>entities\<close>.
\<close>

theorem inventory_table_not_initialized:
  "(\<exists>new. calls (snd (update_data E st c df ch)) = calls c @ new \<and>
      set (map fst new) \<subseteq> {UPDATE_SQL, INSERT_SQL, DELETE_SQL}) \<and>
   map sql_table [UPDATE_SQL, INSERT_SQL, DELETE_SQL] = [''inventory'', ''inventory'', ''inventory''] \<and>
   map sql_table initialize_data_statements = [''entities'', ''transactions'', ''users''] \<and>
   ''inventory'' \<notin> set (map sql_table initialize_data_statements) \<and>
   set (concat (map sql_columns [UPDATE_SQL, INSERT_SQL, DELETE_SQL])) \<inter>
     set (concat (map sql_columns initialize_data_statements)) = {} \<and>
   fst (initialize_data catalog_engine new_database) = Inr () \<and>
   durable (snd (initialize_data catalog_engine new_database)) = [''entities'', ''transactions'', ''users''] \<and>
   fst (update_data catalog_engine \<lparr>inventory_table = ch2\<rparr>
          (snd (initialize_data catalog_engine new_database)) (Some S2) ch2) =
     Inl (DatabaseError ''no such table: inventory'') \<and>
   fst (initialize_data sqlite_catalog_engine new_database) =
     Inl (DatabaseError ''near FOREIGN: syntax error'') \<and>
   durable (snd (initialize_data sqlite_catalog_engine new_database)) = [''entities''] \<and>
   txn (snd (initialize_data sqlite_catalog_engine new_database)) = None \<and>
   fst (update_data sqlite_catalog_engine \<lparr>inventory_table = ch2\<rparr>
          (snd (initialize_data sqlite_catalog_engine new_database)) (Some S2) ch2) =
     Inl (DatabaseError ''no such table: inventory'')"
proof -
  have init: "initialize_data catalog_engine new_database =
      (Inr (), \<lparr>durable = [''entities'', ''transactions'', ''users''], txn = None,
                calls = map (\<lambda>q. (q, [Inr (Dict [])])) initialize_data_statements,
                executed = map (\<lambda>q. (q, [])) initialize_data_statements\<rparr>)"
    by (simp add: initialize_data_def initialize_data_statements_def execute_def executemany_def
        catalog_engine_def new_database_def view_def run_stmt_def commit_def
        CREATE_ENTITIES_def CREATE_TRANSACTIONS_def CREATE_USERS_def)
  have init': "initialize_data sqlite_catalog_engine new_database =
      (Inl (DatabaseError ''near FOREIGN: syntax error''),
       \<lparr>durable = [''entities''], txn = None,
        calls = [(CREATE_ENTITIES, [Inr (Dict [])]), (CREATE_TRANSACTIONS, [Inr (Dict [])])],
        executed = [(CREATE_ENTITIES, [])]\<rparr>)"
    by (simp add: initialize_data_def initialize_data_statements_def execute_def executemany_def
        sqlite_catalog_engine_def catalog_engine_def new_database_def view_def run_stmt_def
        commit_def CREATE_ENTITIES_def CREATE_TRANSACTIONS_def CREATE_USERS_def)
  have run': "fst (update_data sqlite_catalog_engine \<lparr>inventory_table = ch2\<rparr>
          (snd (initialize_data sqlite_catalog_engine new_database)) (Some S2) ch2) =
     Inl (DatabaseError ''no such table: inventory'')"
    unfolding init'
    by (simp add: update_data_def update_edited_def update_added_def update_deleted_def
        executemany_def sqlite_catalog_engine_def catalog_engine_def view_def DELETE_SQL_def ch2_def)
  have run: "fst (update_data catalog_engine \<lparr>inventory_table = ch2\<rparr>
          (snd (initialize_data catalog_engine new_database)) (Some S2) ch2) =
     Inl (DatabaseError ''no such table: inventory'')"
    unfolding init
    by (simp add: update_data_def update_edited_def update_added_def update_deleted_def
        executemany_def catalog_engine_def view_def DELETE_SQL_def ch2_def)
  have tables: "map sql_table [UPDATE_SQL, INSERT_SQL, DELETE_SQL] = [''inventory'', ''inventory'', ''inventory'']"
    "map sql_table initialize_data_statements = [''entities'', ''transactions'', ''users'']"
    by (simp_all add: UPDATE_SQL_def INSERT_SQL_def DELETE_SQL_def initialize_data_statements_def
        CREATE_ENTITIES_def CREATE_TRANSACTIONS_def CREATE_USERS_def)
  have cols: "set (concat (map sql_columns [UPDATE_SQL, INSERT_SQL, DELETE_SQL])) \<inter>
     set (concat (map sql_columns initialize_data_statements)) = {}"
    by (simp add: UPDATE_SQL_def INSERT_SQL_def DELETE_SQL_def initialize_data_statements_def
        CREATE_ENTITIES_def CREATE_TRANSACTIONS_def CREATE_USERS_def)
  have "''inventory'' \<notin> set (map sql_table initialize_data_statements)"
    unfolding tables by simp
  with calls_update_data[of E st c df ch] init init' run run' tables cols show ?thesis
    by simp
qed

text \<open>
  Claim C10. On a connection whose three queries succeed, \<^verbatim>\<open>load_data\<close> raises:
  \<^verbatim>\<open>NameError\<close> for \<^verbatim>\<open>df_transactions\<close> when the fetched rows fit their frames (the
  return statement is reached), \<^verbatim>\<open>ValueError\<close> from \<^verbatim>\<open>pd.DataFrame\<close> otherwise. On
  no connection at all does it return a tuple.
\<close>

theorem load_data_never_returns_frames:
  assumes "db_query E (view c) (SelectAll ''entities'') = Inr d1"
      and "db_query E (view c) (SelectAll ''transactions'') = Inr d2"
      and "db_query E (view c) (SelectAll ''users'') = Inr d3"
  shows "load_data E c =
           (if (\<forall>r \<in> set d1. length r = 5) \<and> (\<forall>r \<in> set d2. length r = 5) \<and>
               (\<forall>r \<in> set d3. length r = 12)
            then Inl (NameError ''df_transactions'') else Inl ValueError) \<and>
         (\<forall>(E' :: 'a engine) c' vs. load_data E' c' \<noteq> Inr (PyTuple vs))"
proof -
  have name: "load_global ''df_transactions'' = Inl (NameError ''df_transactions'')"
    by (simp add: load_global_def module_globals_def)
  have "load_data E' c' \<noteq> Inr (PyTuple vs)" for E' :: "'a engine" and c' vs
    by (simp add: load_data_def name split: sum.splits)
  moreover have "load_data E c =
           (if (\<forall>r \<in> set d1. length r = 5) \<and> (\<forall>r \<in> set d2. length r = 5) \<and>
               (\<forall>r \<in> set d3. length r = 12)
            then Inl (NameError ''df_transactions'') else Inl ValueError)"
    using assms by (auto simp: load_data_def name pd_DataFrame_def)
  ultimately show ?thesis by blast
qed

text \<open>On a database whose three queries find no rows.\<close>

theorem load_data_never_returns_frames_witness:
  "load_data recording_engine fresh_conn = Inl (NameError ''df_transactions'')"
proof -
  have q: "db_query recording_engine (view fresh_conn) (SelectAll t) = Inr []" for t
    by (simp add: recording_engine_def)
  from load_data_never_returns_frames[OF q q q, THEN conjunct1] show ?thesis
    by simp
qed

end
